theory Spec2Isabelle
  imports Main "HOL-Library.Finite_Map" "HOL-Library.Sublist"
begin

section \<open>Strings and errors\<close>

text \<open>
  Go strings are byte strings; they are modelled as \<^typ>\<open>string\<close>. The double quote,
  the apostrophe and the backslash are written by their character codes.
\<close>

definition dq :: string where
  "dq = [CHR 0x22]"

definition apos :: string where
  "apos = [CHR 0x27]"

definition bsl :: string where
  "bsl = [CHR 0x5C]"

text \<open>\<open>quoted s\<close> is what the verb \<^verbatim>\<open>%s\<close> between double quotes prints for \<open>s\<close>.\<close>

definition quoted :: "string \<Rightarrow> string" where
  "quoted s = dq @ s @ dq"

text \<open>
  Go errors. \<open>ErrNotExist\<close> is the sentinel \<^verbatim>\<open>fs.ErrNotExist\<close>, \<open>ErrInvalidPath\<close> the
  error of \<^verbatim>\<open>filepath.Localize\<close>, \<open>External m\<close> an error value of a collaborator (the
  operating system, the JSON library) with message \<open>m\<close>, \<open>Errorf m\<close> the result of
  \<^verbatim>\<open>fmt.Errorf\<close> without a wrapped error, and \<open>Wrapf p e\<close> the result of
  \<^verbatim>\<open>fmt.Errorf(p + "%w", e)\<close>: every format of the program that wraps an error ends
  in \<^verbatim>\<open>%w\<close>.
\<close>

datatype error =
    ErrNotExist
  | ErrInvalidPath
  | External string
  | Errorf string
  | Wrapf string error

text \<open>The message of an error, \<^verbatim>\<open>err.Error()\<close>.\<close>

fun Error :: "error \<Rightarrow> string" where
  "Error ErrNotExist = ''file does not exist''"
| "Error ErrInvalidPath = ''invalid path''"
| "Error (External m) = m"
| "Error (Errorf m) = m"
| "Error (Wrapf p e) = p @ Error e"

text \<open>\<^verbatim>\<open>errors.Is(err, fs.ErrNotExist)\<close>: the chain of wrapped errors is searched.\<close>

fun Is_ErrNotExist :: "error \<Rightarrow> bool" where
  "Is_ErrNotExist ErrNotExist = True"
| "Is_ErrNotExist (Wrapf p e) = Is_ErrNotExist e"
| "Is_ErrNotExist _ = False"

text \<open>An error names a resource ID when the ID occurs in its message.\<close>

definition names :: "error \<Rightarrow> string \<Rightarrow> bool" where
  "names e ident = sublist ident (Error e)"

section \<open>File system resources (core/lbdeploy)\<close>

type_synonym DirectoryResourceID = string
type_synonym FileResourceID = string

record DirectoryResource =
  dr_Location :: DirectoryResourceID
  dr_Path :: string

record FileResource =
  fr_Location :: DirectoryResourceID
  fr_Path :: string

record KnownFolder =
  kf_ID :: DirectoryResourceID
  kf_Path :: string
  kf_Protected :: bool

record DirRef =
  dref_Root :: KnownFolder
  dref_Lineage :: "DirectoryResource list"

record FileRef =
  fref_Root :: KnownFolder
  fref_Lineage :: "DirectoryResource list"
  fref_FileID :: FileResourceID
  fref_FilePath :: string

type_synonym DirectoryResourceMap = "(DirectoryResourceID, DirectoryResource) fmap"
type_synonym FileResourceMap = "(FileResourceID, FileResource) fmap"

record FileSystemResources =
  Directories :: DirectoryResourceMap
  Files :: FileResourceMap

section \<open>Known folders (platform/windows/localfs)\<close>

text \<open>The known folder identifiers of \<^verbatim>\<open>golang.org/x/sys/windows\<close> that the table uses.\<close>

datatype KNOWNFOLDERID =
    FOLDERID_CommonStartMenu
  | FOLDERID_PublicDesktop
  | FOLDERID_ProgramData
  | FOLDERID_ProgramFiles
  | FOLDERID_ProgramFilesX86
  | FOLDERID_ProgramFilesX64
  | FOLDERID_System

record knownFolder =
  guid :: KNOWNFOLDERID
  protected :: bool

definition knownFolders :: "DirectoryResourceID \<Rightarrow> knownFolder option" where
  "knownFolders = map_of
     [(''common-start-menu'', \<lparr>guid = FOLDERID_CommonStartMenu, protected = False\<rparr>),
      (''public-desktop'', \<lparr>guid = FOLDERID_PublicDesktop, protected = False\<rparr>),
      (''program-data'', \<lparr>guid = FOLDERID_ProgramData, protected = False\<rparr>),
      (''program-files'', \<lparr>guid = FOLDERID_ProgramFiles, protected = False\<rparr>),
      (''program-files-x86'', \<lparr>guid = FOLDERID_ProgramFilesX86, protected = False\<rparr>),
      (''program-files-x64'', \<lparr>guid = FOLDERID_ProgramFilesX64, protected = False\<rparr>),
      (''system'', \<lparr>guid = FOLDERID_System, protected = True\<rparr>)]"

text \<open>
  The operating system is a collaborator: \<^verbatim>\<open>windows.KnownFolderPath\<close> is a parameter
  \<open>os\<close> of the model. It reads and may change a state of the world \<open>'w\<close>, so that the
  number of calls made by a resolution is visible in the model.
\<close>

type_synonym 'w KnownFolderPath = "KNOWNFOLDERID \<Rightarrow> 'w \<Rightarrow> (error + string) \<times> 'w"

definition ResolveKnownFolder ::
  "'w KnownFolderPath \<Rightarrow> DirectoryResourceID \<Rightarrow> 'w \<Rightarrow> (error + KnownFolder) \<times> 'w" where
  "ResolveKnownFolder os ident w =
     (case knownFolders ident of
        None \<Rightarrow> (Inl ErrNotExist, w)
      | Some folder \<Rightarrow>
          (case os (guid folder) w of
             (Inl err, w') \<Rightarrow>
               (Inl (Wrapf (''the '' @ quoted ident @ '' known folder could not be resolved: '') err), w')
           | (Inr path, w') \<Rightarrow>
               (Inr \<lparr>kf_ID = ident, kf_Path = path, kf_Protected = protected folder\<rparr>, w')))"

section \<open>Resolution of directories and files (platform/windows/localfs)\<close>

text \<open>One pass through the body of a \<^verbatim>\<open>for\<close> loop continues with a new state or returns.\<close>

datatype ('s, 'r) iteration = Continue 's | Return 'r

text \<open>
  The state of the loop of \<^verbatim>\<open>ResolveDirectory\<close>: \<^verbatim>\<open>next\<close>, \<^verbatim>\<open>seen\<close> and
  \<^verbatim>\<open>lineage\<close>. The loop leaves by \<^verbatim>\<open>break\<close> with the root and the lineage, or by
  \<^verbatim>\<open>return\<close> with an error.
\<close>

type_synonym dir_state = "DirectoryResourceID \<times> DirectoryResourceID set \<times> DirectoryResource list"

type_synonym 'w dir_result = "(error + KnownFolder \<times> DirectoryResource list) \<times> 'w"

definition dir_cycle_error :: "DirectoryResourceID \<Rightarrow> DirectoryResourceID \<Rightarrow> error" where
  "dir_cycle_error ident nxt = Errorf (''failed to resolve the '' @ quoted ident @
     '' directory: the '' @ quoted nxt @
     '' parent directory has a cyclic reference to itself in the deployment'' @ apos @ ''s resources'')"

definition dir_parent_no_location_error :: "DirectoryResourceID \<Rightarrow> DirectoryResourceID \<Rightarrow> error" where
  "dir_parent_no_location_error ident nxt = Errorf (''failed to resolve the '' @ quoted ident @
     '' directory: the '' @ quoted nxt @ '' parent directory does not have a location'')"

definition dir_parent_not_defined_error :: "DirectoryResourceID \<Rightarrow> DirectoryResourceID \<Rightarrow> error" where
  "dir_parent_not_defined_error ident nxt = Errorf (''failed to resolve the '' @ quoted ident @
     '' directory: the '' @ quoted nxt @
     '' parent directory is not defined in the deployment'' @ apos @ ''s resources'')"

definition dir_not_defined_error :: "DirectoryResourceID \<Rightarrow> error" where
  "dir_not_defined_error ident = Errorf (''the '' @ quoted ident @
     '' directory is not defined in the deployment'' @ apos @ ''s resources'')"

definition dir_no_location_error :: "DirectoryResourceID \<Rightarrow> error" where
  "dir_no_location_error ident = Errorf (''the '' @ quoted ident @
     '' directory does not have a location'')"

definition ResolveDirectory_iteration ::
  "'w KnownFolderPath \<Rightarrow> DirectoryResourceMap \<Rightarrow> DirectoryResourceID \<Rightarrow> dir_state \<Rightarrow> 'w
     \<Rightarrow> (dir_state, 'w dir_result) iteration" where
  "ResolveDirectory_iteration os dirs ident st w =
     (case st of (nxt, seen, lineage) \<Rightarrow>
        if nxt \<in> seen then Return (Inl (dir_cycle_error ident nxt), w)
        else
          (case fmlookup dirs nxt of
             Some parent \<Rightarrow>
               if dr_Location parent = []
               then Return (Inl (dir_parent_no_location_error ident nxt), w)
               else Continue (dr_Location parent, insert nxt seen, lineage @ [parent])
           | None \<Rightarrow>
               (case ResolveKnownFolder os nxt w of
                  (Inr candidate, w') \<Rightarrow> Return (Inr (candidate, lineage), w')
                | (Inl err, w') \<Rightarrow>
                    if \<not> Is_ErrNotExist err then Return (Inl err, w')
                    else Return (Inl (dir_parent_not_defined_error ident nxt), w'))))"

function ResolveDirectory_loop ::
  "'w KnownFolderPath \<Rightarrow> DirectoryResourceMap \<Rightarrow> DirectoryResourceID \<Rightarrow> dir_state \<Rightarrow> 'w
     \<Rightarrow> 'w dir_result" where
  "ResolveDirectory_loop os dirs ident st w =
     (case ResolveDirectory_iteration os dirs ident st w of
        Return r \<Rightarrow> r
      | Continue st' \<Rightarrow> ResolveDirectory_loop os dirs ident st' w)"
  by pat_completeness auto
termination
proof (relation "measure (\<lambda>(os, dirs, ident, (nxt, seen, lineage), w). card (fmdom' dirs - seen))")
  show "wf (measure (\<lambda>(os, dirs, ident, (nxt, seen, lineage), w). card (fmdom' dirs - seen)))"
    by simp
next
  fix os :: "'w KnownFolderPath" and dirs :: DirectoryResourceMap and ident :: DirectoryResourceID
    and st st' :: dir_state and w :: 'w
  assume c: "ResolveDirectory_iteration os dirs ident st w = Continue st'"
  obtain nxt seen lineage where st: "st = (nxt, seen, lineage)"
    by (cases st) auto
  from c st have fresh: "nxt \<notin> seen" and defined: "nxt \<in> fmdom' dirs"
    and st': "st' = (dr_Location (the (fmlookup dirs nxt)), insert nxt seen,
                     lineage @ [the (fmlookup dirs nxt)])"
    by (auto simp: ResolveDirectory_iteration_def fmdom'I split: if_splits option.splits sum.splits prod.splits)
  have "fmdom' dirs - insert nxt seen \<subset> fmdom' dirs - seen"
    using fresh defined by auto
  then have "card (fmdom' dirs - insert nxt seen) < card (fmdom' dirs - seen)"
    by (intro psubset_card_mono) auto
  then show "((os, dirs, ident, st', w), (os, dirs, ident, st, w))
      \<in> measure (\<lambda>(os, dirs, ident, (nxt, seen, lineage), w). card (fmdom' dirs - seen))"
    by (simp add: st st')
qed

text \<open>
  The same loop with a bound on the number of passes through its body: \<open>None\<close> when the
  bound is used up before the loop returns.
\<close>

fun ResolveDirectory_loop_within ::
  "nat \<Rightarrow> 'w KnownFolderPath \<Rightarrow> DirectoryResourceMap \<Rightarrow> DirectoryResourceID \<Rightarrow> dir_state \<Rightarrow> 'w
     \<Rightarrow> 'w dir_result option" where
  "ResolveDirectory_loop_within 0 os dirs ident st w = None"
| "ResolveDirectory_loop_within (Suc n) os dirs ident st w =
     (case ResolveDirectory_iteration os dirs ident st w of
        Return r \<Rightarrow> Some r
      | Continue st' \<Rightarrow> ResolveDirectory_loop_within n os dirs ident st' w)"

definition ResolveDirectory ::
  "'w KnownFolderPath \<Rightarrow> DirectoryResourceMap \<Rightarrow> DirectoryResourceID \<Rightarrow> 'w \<Rightarrow> (error + DirRef) \<times> 'w" where
  "ResolveDirectory os dirs ident w =
     (case fmlookup dirs ident of
        None \<Rightarrow>
          (case ResolveKnownFolder os ident w of
             (Inr candidate, w') \<Rightarrow> (Inr \<lparr>dref_Root = candidate, dref_Lineage = []\<rparr>, w')
           | (Inl err, w') \<Rightarrow>
               if \<not> Is_ErrNotExist err then (Inl err, w')
               else (Inl (dir_not_defined_error ident), w'))
      | Some data \<Rightarrow>
          if dr_Location data = [] then (Inl (dir_no_location_error ident), w)
          else
            (case ResolveDirectory_loop os dirs ident (dr_Location data, {}, [data]) w of
               (Inl err, w') \<Rightarrow> (Inl err, w')
             | (Inr (root, lineage), w') \<Rightarrow>
                 (Inr \<lparr>dref_Root = root, dref_Lineage = rev lineage\<rparr>, w')))"

definition file_not_defined_error :: "FileResourceID \<Rightarrow> error" where
  "file_not_defined_error ident = Errorf (''the '' @ quoted ident @
     '' file is not defined in the deployment'' @ apos @ ''s resources'')"

definition file_no_location_error :: "FileResourceID \<Rightarrow> error" where
  "file_no_location_error ident = Errorf (''the '' @ quoted ident @ '' file does not have a location'')"

definition ResolveFile ::
  "'w KnownFolderPath \<Rightarrow> FileSystemResources \<Rightarrow> FileResourceID \<Rightarrow> 'w \<Rightarrow> (error + FileRef) \<times> 'w" where
  "ResolveFile os res ident w =
     (case fmlookup (Files res) ident of
        None \<Rightarrow> (Inl (file_not_defined_error ident), w)
      | Some data \<Rightarrow>
          if fr_Location data = [] then (Inl (file_no_location_error ident), w)
          else
            (case ResolveDirectory os (Directories res) (fr_Location data) w of
               (Inl err, w') \<Rightarrow>
                 (Inl (Wrapf (''failed to resolve the '' @ quoted ident @ '' file: '') err), w')
             | (Inr dir, w') \<Rightarrow>
                 (Inr \<lparr>fref_Root = dref_Root dir, fref_Lineage = dref_Lineage dir,
                       fref_FileID = ident, fref_FilePath = fr_Path data\<rparr>, w')))"

section \<open>Registry resources (core/lbdeploy)\<close>

type_synonym RegistryKeyResourceID = string
type_synonym RegistryValueResourceID = string

text \<open>
  \<^verbatim>\<open>PredefinedRegistryKey\<close> is a Go \<^verbatim>\<open>int\<close>; \<^verbatim>\<open>PredefinedKeyUnknown\<close> is 0 and
  \<^verbatim>\<open>PredefinedKeyLocalMachine\<close> is 1.
\<close>

type_synonym PredefinedRegistryKey = int

definition PredefinedKeyUnknown :: PredefinedRegistryKey where
  "PredefinedKeyUnknown = 0"

definition PredefinedKeyLocalMachine :: PredefinedRegistryKey where
  "PredefinedKeyLocalMachine = 1"

definition predefinedRegistryKeyStrings :: "string list" where
  "predefinedRegistryKeyStrings = [''HKEY_UNKNOWN'', ''HKEY_LOCAL_MACHINE'']"

text \<open>The decimal digits that the verb \<^verbatim>\<open>%d\<close> prints.\<close>

fun show_nat :: "nat \<Rightarrow> string" where
  "show_nat n =
     (if n < 10 then [char_of (48 + n)]
      else show_nat (n div 10) @ [char_of (48 + n mod 10)])"

definition show_int :: "int \<Rightarrow> string" where
  "show_int i = (if i < 0 then ''-'' @ show_nat (nat (- i)) else show_nat (nat i))"

definition PredefinedRegistryKey_String :: "PredefinedRegistryKey \<Rightarrow> string" where
  "PredefinedRegistryKey_String key =
     (if 0 \<le> key \<and> key < int (length predefinedRegistryKeyStrings)
      then predefinedRegistryKeyStrings ! nat key
      else ''<unknown registry key '' @ quoted (show_int key) @ ''>'')"

record RegistryKeyResource =
  rk_Location :: RegistryKeyResourceID
  rk_Name :: string
  rk_Path :: string

text \<open>\<open>'k\<close> is the type \<^verbatim>\<open>lbvalue.Kind\<close> of the kinds of registry values.\<close>

record 'k RegistryValueResource =
  rv_Key :: RegistryKeyResourceID
  rv_Name :: string
  rv_Type :: 'k

record RegistryRoot =
  rr_ID :: RegistryKeyResourceID
  rr_PredefinedKey :: PredefinedRegistryKey
  rr_Path :: string

record RegistryKeyRef =
  kref_Root :: RegistryRoot
  kref_Lineage :: "RegistryKeyResource list"

record 'k RegistryValueRef =
  vref_Root :: RegistryRoot
  vref_Lineage :: "RegistryKeyResource list"
  vref_ID :: RegistryValueResourceID
  vref_Name :: string
  vref_Type :: 'k

type_synonym RegistryKeyResourceMap = "(RegistryKeyResourceID, RegistryKeyResource) fmap"
type_synonym 'k RegistryValueResourceMap = "(RegistryValueResourceID, 'k RegistryValueResource) fmap"

record 'k RegistryResources =
  Keys :: RegistryKeyResourceMap
  Values :: "'k RegistryValueResourceMap"

section \<open>Registry roots (platform/windows/localregistry)\<close>

record registryRoot =
  key :: PredefinedRegistryKey
  path :: string

definition registryRoots :: "RegistryKeyResourceID \<Rightarrow> registryRoot option" where
  "registryRoots = map_of [(''software'', \<lparr>key = PredefinedKeyLocalMachine, path = ''SOFTWARE''\<rparr>)]"

text \<open>
  \<^verbatim>\<open>PredefinedKeyHandle\<close> returns the handle \<^verbatim>\<open>registry.LOCAL_MACHINE\<close>, the number
  \<^verbatim>\<open>0x80000002\<close>, for the one key it supports.
\<close>

definition PredefinedKeyHandle :: "PredefinedRegistryKey \<Rightarrow> error + nat" where
  "PredefinedKeyHandle k =
     (if k = PredefinedKeyLocalMachine then Inr 0x80000002
      else Inl (Errorf (''the predefined registry key is unrecognized or unsupported: ''
                        @ PredefinedRegistryKey_String k)))"

definition ResolveRoot :: "RegistryKeyResourceID \<Rightarrow> error + RegistryRoot" where
  "ResolveRoot ident =
     (case registryRoots ident of
        None \<Rightarrow> Inl ErrNotExist
      | Some root \<Rightarrow>
          (case PredefinedKeyHandle (key root) of
             Inl err \<Rightarrow>
               Inl (Wrapf (''the '' @ quoted ident @ '' registry root could not be resolved: '') err)
           | Inr handle \<Rightarrow>
               Inr \<lparr>rr_ID = ident, rr_PredefinedKey = key root, rr_Path = path root\<rparr>))"

section \<open>Resolution of registry keys and values (platform/windows/localregistry)\<close>

type_synonym key_state =
  "RegistryKeyResourceID \<times> RegistryKeyResourceID set \<times> RegistryKeyResource list"

type_synonym key_result = "error + RegistryRoot \<times> RegistryKeyResource list"

definition key_cycle_error :: "RegistryKeyResourceID \<Rightarrow> RegistryKeyResourceID \<Rightarrow> error" where
  "key_cycle_error ident nxt = Errorf (''failed to resolve the '' @ quoted ident @
     '' registry key: the '' @ quoted nxt @
     '' parent key has a cyclic reference to itself in the deployment'' @ apos @
     ''s registry resources'')"

definition key_parent_no_location_error :: "RegistryKeyResourceID \<Rightarrow> RegistryKeyResourceID \<Rightarrow> error" where
  "key_parent_no_location_error ident nxt = Errorf (''failed to resolve the '' @ quoted ident @
     '' registry key: the '' @ quoted nxt @ '' parent key does not have a location'')"

definition key_parent_not_defined_error :: "RegistryKeyResourceID \<Rightarrow> RegistryKeyResourceID \<Rightarrow> error" where
  "key_parent_not_defined_error ident nxt = Errorf (''failed to resolve the '' @ quoted ident @
     '' registry key: the '' @ quoted nxt @
     '' prent key is not defined in the deployment'' @ apos @ ''s resources'')"

definition key_not_defined_error :: "RegistryKeyResourceID \<Rightarrow> error" where
  "key_not_defined_error ident = Errorf (''the '' @ quoted ident @
     '' registry key is not defined in the deployment'' @ apos @ ''s resources'')"

definition key_no_location_error :: "RegistryKeyResourceID \<Rightarrow> error" where
  "key_no_location_error ident = Errorf (''the '' @ quoted ident @
     '' registry key does not have a location'')"

definition ResolveKey_iteration ::
  "RegistryKeyResourceMap \<Rightarrow> RegistryKeyResourceID \<Rightarrow> key_state \<Rightarrow> (key_state, key_result) iteration" where
  "ResolveKey_iteration keys ident st =
     (case st of (nxt, seen, lineage) \<Rightarrow>
        if nxt \<in> seen then Return (Inl (key_cycle_error ident nxt))
        else
          (case fmlookup keys nxt of
             Some parent \<Rightarrow>
               if rk_Location parent = []
               then Return (Inl (key_parent_no_location_error ident nxt))
               else Continue (rk_Location parent, insert nxt seen, lineage @ [parent])
           | None \<Rightarrow>
               (case ResolveRoot nxt of
                  Inr candidate \<Rightarrow> Return (Inr (candidate, lineage))
                | Inl err \<Rightarrow>
                    if \<not> Is_ErrNotExist err then Return (Inl err)
                    else Return (Inl (key_parent_not_defined_error ident nxt)))))"

function ResolveKey_loop ::
  "RegistryKeyResourceMap \<Rightarrow> RegistryKeyResourceID \<Rightarrow> key_state \<Rightarrow> key_result" where
  "ResolveKey_loop keys ident st =
     (case ResolveKey_iteration keys ident st of
        Return r \<Rightarrow> r
      | Continue st' \<Rightarrow> ResolveKey_loop keys ident st')"
  by pat_completeness auto
termination
proof (relation "measure (\<lambda>(keys, ident, (nxt, seen, lineage)). card (fmdom' keys - seen))")
  show "wf (measure (\<lambda>(keys, ident, (nxt, seen, lineage)). card (fmdom' keys - seen)))"
    by simp
next
  fix keys :: RegistryKeyResourceMap and ident :: RegistryKeyResourceID and st st' :: key_state
  assume c: "ResolveKey_iteration keys ident st = Continue st'"
  obtain nxt seen lineage where st: "st = (nxt, seen, lineage)"
    by (cases st) auto
  from c st have fresh: "nxt \<notin> seen" and defined: "nxt \<in> fmdom' keys"
    and st': "st' = (rk_Location (the (fmlookup keys nxt)), insert nxt seen,
                     lineage @ [the (fmlookup keys nxt)])"
    by (auto simp: ResolveKey_iteration_def fmdom'I split: if_splits option.splits sum.splits)
  have "fmdom' keys - insert nxt seen \<subset> fmdom' keys - seen"
    using fresh defined by auto
  then have "card (fmdom' keys - insert nxt seen) < card (fmdom' keys - seen)"
    by (intro psubset_card_mono) auto
  then show "((keys, ident, st'), (keys, ident, st))
      \<in> measure (\<lambda>(keys, ident, (nxt, seen, lineage)). card (fmdom' keys - seen))"
    by (simp add: st st')
qed

fun ResolveKey_loop_within ::
  "nat \<Rightarrow> RegistryKeyResourceMap \<Rightarrow> RegistryKeyResourceID \<Rightarrow> key_state \<Rightarrow> key_result option" where
  "ResolveKey_loop_within 0 keys ident st = None"
| "ResolveKey_loop_within (Suc n) keys ident st =
     (case ResolveKey_iteration keys ident st of
        Return r \<Rightarrow> Some r
      | Continue st' \<Rightarrow> ResolveKey_loop_within n keys ident st')"

definition ResolveKey :: "RegistryKeyResourceMap \<Rightarrow> RegistryKeyResourceID \<Rightarrow> error + RegistryKeyRef" where
  "ResolveKey keys ident =
     (case fmlookup keys ident of
        None \<Rightarrow>
          (case ResolveRoot ident of
             Inr candidate \<Rightarrow> Inr \<lparr>kref_Root = candidate, kref_Lineage = []\<rparr>
           | Inl err \<Rightarrow>
               if \<not> Is_ErrNotExist err then Inl err
               else Inl (key_not_defined_error ident))
      | Some data \<Rightarrow>
          if rk_Location data = [] then Inl (key_no_location_error ident)
          else
            (case ResolveKey_loop keys ident (rk_Location data, {}, [data]) of
               Inl err \<Rightarrow> Inl err
             | Inr (root, lineage) \<Rightarrow> Inr \<lparr>kref_Root = root, kref_Lineage = rev lineage\<rparr>))"

definition value_not_defined_error :: "RegistryValueResourceID \<Rightarrow> error" where
  "value_not_defined_error ident = Errorf (''the '' @ quoted ident @
     '' registry value is not defined in the deployment'' @ apos @ ''s resources'')"

definition value_no_key_error :: "RegistryValueResourceID \<Rightarrow> error" where
  "value_no_key_error ident = Errorf (''the '' @ quoted ident @ '' registry value does not have a key'')"

definition ResolveValue ::
  "'k RegistryResources \<Rightarrow> RegistryValueResourceID \<Rightarrow> error + 'k RegistryValueRef" where
  "ResolveValue res ident =
     (case fmlookup (Values res) ident of
        None \<Rightarrow> Inl (value_not_defined_error ident)
      | Some data \<Rightarrow>
          if rv_Key data = [] then Inl (value_no_key_error ident)
          else
            (case ResolveKey (Keys res) (rv_Key data) of
               Inl err \<Rightarrow> Inl (Wrapf (''failed to resolve the '' @ quoted ident @ '' registry value: '') err)
             | Inr k \<Rightarrow>
                 Inr \<lparr>vref_Root = kref_Root k, vref_Lineage = kref_Lineage k,
                      vref_ID = ident, vref_Name = rv_Name data, vref_Type = rv_Type data\<rparr>))"

section \<open>Paths of resolved references (core/lbdeploy)\<close>

text \<open>
  \<^verbatim>\<open>filepath.Localize\<close> and \<^verbatim>\<open>filepath.Join\<close> belong to the Go standard library.
  They are parameters \<open>localize\<close> and \<open>join\<close> of the model; \<open>join p e\<close> stands for
  \<^verbatim>\<open>filepath.Join(p, e)\<close>.
\<close>

type_synonym Localize = "string \<Rightarrow> error + string"
type_synonym Join = "string \<Rightarrow> string \<Rightarrow> string"

text \<open>The loop of \<^verbatim>\<open>DirRef.Path\<close> over the lineage, from the path built so far.\<close>

fun DirRef_Path_loop :: "Localize \<Rightarrow> Join \<Rightarrow> string \<Rightarrow> DirectoryResource list \<Rightarrow> error + string" where
  "DirRef_Path_loop localize join p [] = Inr p"
| "DirRef_Path_loop localize join p (dir # rest) =
     (case localize (dr_Path dir) of
        Inl err \<Rightarrow> Inl err
      | Inr localized \<Rightarrow> DirRef_Path_loop localize join (join p localized) rest)"

definition DirRef_Path :: "Localize \<Rightarrow> Join \<Rightarrow> DirRef \<Rightarrow> error + string" where
  "DirRef_Path localize join ref =
     DirRef_Path_loop localize join (kf_Path (dref_Root ref)) (dref_Lineage ref)"







section \<open>Events, records and the event registry (core/lbevent)\<close>

type_synonym Type = string

text \<open>
  \<^verbatim>\<open>RecordOf[T]\<close>: \<open>'t\<close> is \<^verbatim>\<open>time.Time\<close>, \<open>'e\<close> the event type \<^verbatim>\<open>T\<close>. The program
  counter is a \<^verbatim>\<open>uintptr\<close>; no arithmetic is done on it. The method \<^verbatim>\<open>Type()\<close> of the
  event is the parameter \<open>Type_of\<close> of the functions below.
\<close>

record ('t, 'e) RecordOf =
  time :: 't
  pc :: nat
  Event :: 'e

text \<open>The envelope \<^verbatim>\<open>recordOf[T]\<close> with the JSON fields \<^verbatim>\<open>time\<close>, \<^verbatim>\<open>type\<close>, \<^verbatim>\<open>data\<close>.\<close>

record ('t, 'e) recordOf =
  ro_Time :: 't
  ro_Type :: Type
  ro_Data :: 'e

text \<open>
  \<^verbatim>\<open>NewRecord\<close> reads the clock: \<open>clock w\<close> is what \<^verbatim>\<open>time.Now()\<close> returns in the
  state \<open>w\<close> of the world. The argument \<open>at\<close> is not used by the body.
\<close>

definition NewRecord :: "('w \<Rightarrow> 't) \<Rightarrow> 'w \<Rightarrow> 't \<Rightarrow> nat \<Rightarrow> 'e \<Rightarrow> ('t, 'e) RecordOf" where
  "NewRecord clock w at pc' event = \<lparr>time = clock w, pc = pc', Event = event\<rparr>"

definition RecordOf_Time :: "('t, 'e) RecordOf \<Rightarrow> 't" where
  "RecordOf_Time r = time r"






text \<open>
  The registry. \<open>'i\<close> is the type \<^verbatim>\<open>lbevent.ID\<close> of event numbers, \<open>'r\<close> the interface
  \<^verbatim>\<open>Record\<close> that the decoders return. The mutex of the registry is not modelled: the
  functions below are its critical sections.
\<close>

type_synonym ('b, 'r) RecordUnmarshaler = "'b \<Rightarrow> error + 'r"

record ('b, 'r) Registration =
  reg_Type :: Type
  reg_Unmarshaler :: "('b, 'r) RecordUnmarshaler"

record ('i, 'b, 'r) Registry =
  reg_types :: "Type list"
  reg_ids :: "Type \<rightharpoonup> 'i"
  reg_unmarshalers :: "Type \<rightharpoonup> ('b, 'r) RecordUnmarshaler"
  reg_next :: 'i

definition NewRegistry :: "'i \<Rightarrow> ('i, 'b, 'r) Registry" where
  "NewRegistry start = \<lparr>reg_types = [], reg_ids = Map.empty, reg_unmarshalers = Map.empty, reg_next = start\<rparr>"

text \<open>The body of the loop of \<^verbatim>\<open>Add\<close> for one registration.\<close>

definition Add_event ::
  "('i::{one,plus}, 'b, 'r) Registry \<Rightarrow> ('b, 'r) Registration \<Rightarrow> ('i, 'b, 'r) Registry" where
  "Add_event r event =
     (let r' = (if reg_ids r (reg_Type event) = None
                then r\<lparr>reg_next := reg_next r + 1,
                       reg_ids := (reg_ids r)(reg_Type event \<mapsto> reg_next r),
                       reg_types := reg_types r @ [reg_Type event]\<rparr>
                else r)
      in r'\<lparr>reg_unmarshalers := (reg_unmarshalers r')(reg_Type event \<mapsto> reg_Unmarshaler event)\<rparr>)"

definition Add ::
  "('i::{one,plus}, 'b, 'r) Registry \<Rightarrow> ('b, 'r) Registration list \<Rightarrow> ('i, 'b, 'r) Registry" where
  "Add r events = foldl Add_event r events"

definition EventID :: "('i, 'b, 'r) Registry \<Rightarrow> Type \<Rightarrow> 'i option" where
  "EventID r event = reg_ids r event"

definition Types :: "('i, 'b, 'r) Registry \<Rightarrow> Type list" where
  "Types r = reg_types r"

definition unrecognized_type_error :: "Type \<Rightarrow> error" where
  "unrecognized_type_error t = Errorf (''the event type '' @ quoted t
     @ '' could not be umarshaled because it is not recognized'')"

definition Registry_UnmarshalRecord ::
  "('b \<Rightarrow> error + Type) \<Rightarrow> ('i, 'b, 'r) Registry \<Rightarrow> 'b \<Rightarrow> error + 'r" where
  "Registry_UnmarshalRecord header r b =
     (case header b of
        Inl err \<Rightarrow> Inl (Wrapf ''failed to parse event record header: '' err)
      | Inr t \<Rightarrow>
          (case reg_unmarshalers r t of
             None \<Rightarrow> Inl (unrecognized_type_error t)
           | Some unmarshaler \<Rightarrow> unmarshaler b))"

section \<open>Engine state (core/lbengine)\<close>

type_synonym FlowID = string
type_synonym PackageID = string

text \<open>
  \<^verbatim>\<open>engineState\<close>: \<open>'pd\<close>, \<open>'ed\<close> and \<open>'lm\<close> are the types \<^verbatim>\<open>stagingfs.PackageDir\<close>,
  \<^verbatim>\<open>tempfs.ExtractionDir\<close> and \<^verbatim>\<open>lockManager\<close>. A \<^verbatim>\<open>flowSet\<close> is a set of flow IDs.
\<close>

record ('pd, 'ed, 'lm) engineState =
  activeFlows :: "FlowID set"
  verifiedPackageFiles :: "PackageID \<rightharpoonup> 'pd"
  extractedPackages :: "PackageID \<rightharpoonup> 'ed"
  locks :: 'lm

datatype admit_error = AlreadyRunning FlowID

text \<open>
  Modelled from the spec: the operations \<^verbatim>\<open>Admit\<close> and \<^verbatim>\<open>Release\<close> on the engine state
  are not among the source files, which hold only the declaration of \<^verbatim>\<open>engineState\<close>.
  The spec: \<^verbatim>\<open>Admit(flowID)\<close> atomically tests and inserts into \<^verbatim>\<open>activeFlows\<close> and
  fails AlreadyRunning if the flow is already present; \<^verbatim>\<open>Release(flowID)\<close> is an
  idempotent removal.
\<close>

definition Admit ::
  "FlowID \<Rightarrow> ('pd, 'ed, 'lm) engineState \<Rightarrow> admit_error + ('pd, 'ed, 'lm) engineState" where
  "Admit flowID s =
     (if flowID \<in> activeFlows s then Inl (AlreadyRunning flowID)
      else Inr (s\<lparr>activeFlows := insert flowID (activeFlows s)\<rparr>))"

definition Release :: "FlowID \<Rightarrow> ('pd, 'ed, 'lm) engineState \<Rightarrow> ('pd, 'ed, 'lm) engineState" where
  "Release flowID s = s\<lparr>activeFlows := activeFlows s - {flowID}\<rparr>"

text \<open>
  Modelled from the spec: \<^verbatim>\<open>Admit\<close> is atomic, so concurrent calls take effect one after
  another in some order. \<open>Admit_race flowID callers s\<close> runs the calls of the callers in
  the order of the list and returns, for each caller, whether its call succeeded, with
  the final state.
\<close>

fun Admit_race ::
  "FlowID \<Rightarrow> 'c list \<Rightarrow> ('pd, 'ed, 'lm) engineState
     \<Rightarrow> ('c \<times> bool) list \<times> ('pd, 'ed, 'lm) engineState" where
  "Admit_race flowID [] s = ([], s)"
| "Admit_race flowID (c # cs) s =
     (case Admit flowID s of
        Inl err \<Rightarrow> (case Admit_race flowID cs s of (rs, s') \<Rightarrow> ((c, False) # rs, s'))
      | Inr s1 \<Rightarrow> (case Admit_race flowID cs s1 of (rs, s') \<Rightarrow> ((c, True) # rs, s')))"

section \<open>The deployment events (core/lbdeployevent)\<close>

text \<open>
  One of the registered event types, \<^verbatim>\<open>FlowLockNotAcquired\<close>. Its field \<^verbatim>\<open>Err\<close> has the
  interface type \<^verbatim>\<open>error\<close>; \<open>None\<close> is \<^verbatim>\<open>nil\<close>.
\<close>

record FlowLockNotAcquired =
  fl_Deployment :: string
  fl_Flow :: string
  fl_Lock :: string
  fl_Err :: "error option"



definition FlowLockNotAcquired_zero :: FlowLockNotAcquired where
  "FlowLockNotAcquired_zero = \<lparr>fl_Deployment = [], fl_Flow = [], fl_Lock = [], fl_Err = None\<rparr>"

section \<open>Collaborators used to evaluate the examples\<close>

subsection \<open>Paths\<close>

text \<open>The elements of a string between occurrences of a separator.\<close>

fun split_on :: "char \<Rightarrow> string \<Rightarrow> string list" where
  "split_on c [] = [] # []"
| "split_on c (x # xs) =
     (if x = c then [] # split_on c xs
      else (case split_on c xs of
              [] \<Rightarrow> [x] # []
            | e # es \<Rightarrow> (x # e) # es))"

text \<open>
  \<^verbatim>\<open>fs.ValidPath\<close> of the Go standard library: a slash-separated path with no empty,
  \<^verbatim>\<open>.\<close> or \<^verbatim>\<open>..\<close> element, or the path \<^verbatim>\<open>.\<close> itself. \<open>ValidString\<close> stands for
  \<^verbatim>\<open>utf8.ValidString\<close>.
\<close>

definition ValidPath :: "(string \<Rightarrow> bool) \<Rightarrow> string \<Rightarrow> bool" where
  "ValidPath ValidString name =
     (ValidString name \<and>
      (name = ''.'' \<or>
       list_all (\<lambda>elem. elem \<noteq> [] \<and> elem \<noteq> ''.'' \<and> elem \<noteq> ''..'') (split_on CHR ''/'' name)))"

text \<open>
  \<^verbatim>\<open>filepath.Localize\<close> on Windows: the path must satisfy \<^verbatim>\<open>fs.ValidPath\<close>, hold no
  colon, backslash or NUL byte and no element that is a reserved device name; its slashes
  become backslashes. \<open>isReservedName\<close> stands for the library's test of device names.
\<close>

definition Localize_windows :: "(string \<Rightarrow> bool) \<Rightarrow> (string \<Rightarrow> bool) \<Rightarrow> Localize" where
  "Localize_windows ValidString isReservedName p =
     (if \<not> ValidPath ValidString p then Inl ErrInvalidPath
      else if list_ex (\<lambda>c. c = CHR '':'' \<or> c = CHR 0x5C \<or> c = CHR 0x00) p then Inl ErrInvalidPath
      else if list_ex isReservedName (split_on CHR ''/'' p) then Inl ErrInvalidPath
      else Inr (map (\<lambda>c. if c = CHR ''/'' then CHR 0x5C else c) p))"

text \<open>
  The examples use path fragments of ASCII letters, dots and separators only: they are valid
  UTF-8 and none of their elements is a device name.
\<close>

definition example_Localize :: Localize where
  "example_Localize = Localize_windows (\<lambda>s. True) (\<lambda>s. False)"

text \<open>
  \<^verbatim>\<open>filepath.Join\<close> of a clean path that does not end in a separator with a localized
  fragment other than \<^verbatim>\<open>.\<close>: the two with a backslash between them.
\<close>

definition example_Join :: Join where
  "example_Join p e = p @ bsl @ e"

definition program_files_path :: string where
  "program_files_path = ''C:'' @ bsl @ ''Program Files''"

text \<open>
  An operating system that knows the folders \<^verbatim>\<open>ProgramFiles\<close> and \<^verbatim>\<open>ProgramData\<close> and
  counts the calls made to it.
\<close>

definition example_os :: "nat KnownFolderPath" where
  "example_os g w =
     (if g = FOLDERID_ProgramFiles then (Inr program_files_path, Suc w)
      else if g = FOLDERID_ProgramData then (Inr (''C:'' @ bsl @ ''ProgramData''), Suc w)
      else (Inl (External ''the known folder is not available''), Suc w))"

subsection \<open>JSON\<close>

text \<open>
  JSON documents as trees. The model of \<^verbatim>\<open>encoding/json\<close> below covers the documents
  that \<^verbatim>\<open>json.Marshal\<close> produces for the envelope of a \<^verbatim>\<open>FlowLockNotAcquired\<close> record,
  with a \<^verbatim>\<open>time.Time\<close> represented by its RFC 3339 text.
\<close>

datatype json =
    JNull
  | JBool bool
  | JNumber int
  | JString string
  | JArray "json list"
  | JObject "(string \<times> json) list"

text \<open>
  A value of interface type \<^verbatim>\<open>error\<close>: \<^verbatim>\<open>nil\<close> is encoded as \<^verbatim>\<open>null\<close>; an error made
  by \<^verbatim>\<open>errors.New\<close> or \<^verbatim>\<open>fmt.Errorf\<close> is a structure without exported fields and is
  encoded as the empty object. Decoding into a field of type \<^verbatim>\<open>error\<close> accepts
  \<^verbatim>\<open>null\<close> only: the library cannot build a value of an interface type that has methods.
\<close>

definition json_Marshal_error :: "error option \<Rightarrow> json" where
  "json_Marshal_error e = (case e of None \<Rightarrow> JNull | Some err \<Rightarrow> JObject [])"

definition json_Unmarshal_error :: "json \<Rightarrow> error + error option" where
  "json_Unmarshal_error j =
     (case j of
        JNull \<Rightarrow> Inr None
      | _ \<Rightarrow> Inl (External ''json: cannot unmarshal value into Go struct field of type error''))"

definition json_Unmarshal_string :: "json \<Rightarrow> error + string" where
  "json_Unmarshal_string j =
     (case j of
        JString s \<Rightarrow> Inr s
      | JNull \<Rightarrow> Inr []
      | _ \<Rightarrow> Inl (External ''json: cannot unmarshal value into Go value of type string''))"

text \<open>A field that the object does not have keeps its zero value, as \<^verbatim>\<open>null\<close> does.\<close>

definition json_field :: "(string \<times> json) list \<Rightarrow> string \<Rightarrow> json" where
  "json_field members name = (case map_of members name of None \<Rightarrow> JNull | Some j \<Rightarrow> j)"

definition json_Marshal_FlowLockNotAcquired :: "FlowLockNotAcquired \<Rightarrow> json" where
  "json_Marshal_FlowLockNotAcquired e =
     JObject [(''Deployment'', JString (fl_Deployment e)),
              (''Flow'', JString (fl_Flow e)),
              (''Lock'', JString (fl_Lock e)),
              (''Err'', json_Marshal_error (fl_Err e))]"

definition json_Unmarshal_FlowLockNotAcquired :: "json \<Rightarrow> error + FlowLockNotAcquired" where
  "json_Unmarshal_FlowLockNotAcquired j =
     (case j of
        JNull \<Rightarrow> Inr FlowLockNotAcquired_zero
      | JObject members \<Rightarrow>
          (case json_Unmarshal_string (json_field members ''Deployment'') of
             Inl err \<Rightarrow> Inl err
           | Inr d \<Rightarrow>
          (case json_Unmarshal_string (json_field members ''Flow'') of
             Inl err \<Rightarrow> Inl err
           | Inr f \<Rightarrow>
          (case json_Unmarshal_string (json_field members ''Lock'') of
             Inl err \<Rightarrow> Inl err
           | Inr l \<Rightarrow>
          (case json_Unmarshal_error (json_field members ''Err'') of
             Inl err \<Rightarrow> Inl err
           | Inr e \<Rightarrow> Inr \<lparr>fl_Deployment = d, fl_Flow = f, fl_Lock = l, fl_Err = e\<rparr>))))
      | _ \<Rightarrow> Inl (External ''json: cannot unmarshal value into Go value of type FlowLockNotAcquired''))"

definition json_Marshal_recordOf :: "(string, FlowLockNotAcquired) recordOf \<Rightarrow> error + json" where
  "json_Marshal_recordOf aux =
     Inr (JObject [(''time'', JString (ro_Time aux)),
                   (''type'', JString (ro_Type aux)),
                   (''data'', json_Marshal_FlowLockNotAcquired (ro_Data aux))])"

definition json_Unmarshal_recordOf :: "json \<Rightarrow> error + (string, FlowLockNotAcquired) recordOf" where
  "json_Unmarshal_recordOf j =
     (case j of
        JObject members \<Rightarrow>
          (case json_Unmarshal_string (json_field members ''time'') of
             Inl err \<Rightarrow> Inl err
           | Inr t \<Rightarrow>
          (case json_Unmarshal_string (json_field members ''type'') of
             Inl err \<Rightarrow> Inl err
           | Inr ty \<Rightarrow>
          (case json_Unmarshal_FlowLockNotAcquired (json_field members ''data'') of
             Inl err \<Rightarrow> Inl err
           | Inr d \<Rightarrow> Inr \<lparr>ro_Time = t, ro_Type = ty, ro_Data = d\<rparr>)))
      | _ \<Rightarrow> Inl (External ''json: cannot unmarshal value into Go value of type recordOf''))"

section \<open>Notions used to state the properties\<close>





text \<open>
  \<open>dir_location_chain dirs x ids root\<close>: the defined directories \<open>ids\<close>, from \<open>x\<close> upwards,
  each with the next as its non-empty location, the last with the location \<open>root\<close>.
\<close>

fun dir_location_chain ::
  "DirectoryResourceMap \<Rightarrow> DirectoryResourceID \<Rightarrow> DirectoryResourceID list \<Rightarrow> DirectoryResourceID \<Rightarrow> bool" where
  "dir_location_chain dirs x [] root = (x = root)"
| "dir_location_chain dirs x (y # ys) root =
     (x = y \<and>
      (case fmlookup dirs y of
         None \<Rightarrow> False
       | Some d \<Rightarrow> dr_Location d \<noteq> [] \<and> dir_location_chain dirs (dr_Location d) ys root))"

text \<open>The definitions of the directories \<open>ids\<close>.\<close>

definition definitions_of :: "DirectoryResourceMap \<Rightarrow> DirectoryResourceID list \<Rightarrow> DirectoryResource list" where
  "definitions_of dirs ids = map (\<lambda>i. the (fmlookup dirs i)) ids"

text \<open>The directories of the examples of the spec.\<close>

definition example_dirs :: DirectoryResourceMap where
  "example_dirs = fmap_of_list
     [(''dirA'', \<lparr>dr_Location = ''program-files'', dr_Path = ''Acme''\<rparr>),
      (''dirB'', \<lparr>dr_Location = ''dirA'', dr_Path = ''Tool''\<rparr>)]"

definition cyclic_dirs :: DirectoryResourceMap where
  "cyclic_dirs = fmap_of_list
     [(''dirX'', \<lparr>dr_Location = ''dirY'', dr_Path = ''a''\<rparr>),
      (''dirY'', \<lparr>dr_Location = ''dirX'', dr_Path = ''b''\<rparr>)]"

definition cyclic_keys :: RegistryKeyResourceMap where
  "cyclic_keys = fmap_of_list
     [(''keyX'', \<lparr>rk_Location = ''keyY'', rk_Name = ''a'', rk_Path = []\<rparr>),
      (''keyY'', \<lparr>rk_Location = ''keyX'', rk_Name = ''b'', rk_Path = []\<rparr>)]"

text \<open>A directory whose path climbs out of its location.\<close>

definition escaping_dirs :: DirectoryResourceMap where
  "escaping_dirs = fmap_of_list
     [(''dirA'', \<lparr>dr_Location = ''program-files'', dr_Path = ''..''\<rparr>)]"

text \<open>Definitions under the IDs of a known folder and of the registry root.\<close>

definition shadowing_dirs :: DirectoryResourceMap where
  "shadowing_dirs = fmap_of_list
     [(''program-files'', \<lparr>dr_Location = ''program-data'', dr_Path = ''Shadow''\<rparr>)]"

definition shadowing_keys :: RegistryKeyResourceMap where
  "shadowing_keys = fmap_of_list
     [(''software'', \<lparr>rk_Location = ''hklm'', rk_Name = ''Shadow'', rk_Path = []\<rparr>)]"




text \<open>A file and a registry value located under the cyclic definitions.\<close>

definition cyclic_fs :: FileSystemResources where
  "cyclic_fs = \<lparr>Directories = cyclic_dirs,
                 Files = fmap_of_list [(''setup'', \<lparr>fr_Location = ''dirX'', fr_Path = ''setup.exe''\<rparr>)]\<rparr>"

definition cyclic_reg :: "unit RegistryResources" where
  "cyclic_reg = \<lparr>Keys = cyclic_keys,
                  Values = fmap_of_list
                    [(''version'', \<lparr>rv_Key = ''keyX'', rv_Name = ''Version'', rv_Type = ()\<rparr>)]\<rparr>"

text \<open>The error of \<^verbatim>\<open>ResolveKnownFolder\<close> when the operating system fails with \<open>err\<close>.\<close>

definition known_folder_error :: "DirectoryResourceID \<Rightarrow> error \<Rightarrow> error" where
  "known_folder_error ident err =
     Wrapf (''the '' @ quoted ident @ '' known folder could not be resolved: '') err"

text \<open>
  A registry with one registration, a second decoder for its tag, and a reader of headers
  for data that consist of the type tag alone.
\<close>

definition example_registry :: "(nat, string, nat) Registry" where
  "example_registry =
     Add (NewRegistry 1000) [\<lparr>reg_Type = ''a:b'', reg_Unmarshaler = (\<lambda>b. Inl (Errorf ''first''))\<rparr>]"

definition example_decoder :: "(string, nat) RecordUnmarshaler" where
  "example_decoder b = Inr (length b)"

definition example_header :: "string \<Rightarrow> error + Type" where
  "example_header b = Inr b"





text \<open>An engine state in which no flow is active.\<close>

definition idle_state :: "(unit, unit, unit) engineState" where
  "idle_state = \<lparr>activeFlows = {}, verifiedPackageFiles = Map.empty,
                  extractedPackages = Map.empty, locks = ()\<rparr>"

section \<open>Properties of the resolution of directories\<close>

declare ResolveDirectory_loop.simps [simp del]
declare ResolveKey_loop.simps [simp del]



lemma dir_loop_within_sound:
  "ResolveDirectory_loop_within n os dirs ident st w = Some r \<Longrightarrow>
     ResolveDirectory_loop os dirs ident st w = r"
proof (induction n arbitrary: st)
  case 0
  then show ?case by simp
next
  case (Suc n)
  then show ?case
    by (subst ResolveDirectory_loop.simps) (auto split: iteration.splits)
qed








lemma dir_iteration_Continue:
  assumes "ResolveDirectory_iteration os dirs ident (nxt, seen, lineage) w = Continue st'"
  shows "nxt \<notin> seen \<and> (\<exists>d. fmlookup dirs nxt = Some d \<and> dr_Location d \<noteq> [] \<and>
            st' = (dr_Location d, insert nxt seen, lineage @ [d]))"
  using assms
  by (simp add: ResolveDirectory_iteration_def split: if_splits option.splits sum.splits prod.splits)

lemma dir_chain_unique:
  "dir_location_chain dirs x ids root \<Longrightarrow> dir_location_chain dirs x ids' root \<Longrightarrow>
     fmlookup dirs root = None \<Longrightarrow> ids = ids'"
proof (induction ids arbitrary: x ids')
  case Nil
  then show ?case by (cases ids') auto
next
  case (Cons y ys)
  then show ?case by (cases ids') (auto split: option.splits)
qed

lemma dir_chain_suffix:
  "dir_location_chain dirs x (as @ y # bs) root \<Longrightarrow> dir_location_chain dirs y (y # bs) root"
proof (induction as arbitrary: x)
  case Nil
  then show ?case by simp
next
  case (Cons a as)
  from Cons.prems obtain d :: DirectoryResource where
    "dir_location_chain dirs (dr_Location d) (as @ y # bs) root"
    by (auto split: option.splits)
  then show ?case by (rule Cons.IH)
qed

lemma dir_chain_distinct:
  "dir_location_chain dirs x ids root \<Longrightarrow> fmlookup dirs root = None \<Longrightarrow> distinct ids"
proof (induction ids arbitrary: x)
  case Nil
  then show ?case by simp
next
  case (Cons y ys)
  from Cons.prems obtain d where x: "x = y" and d: "fmlookup dirs y = Some d"
    and rest: "dir_location_chain dirs (dr_Location d) ys root"
    by (auto split: option.splits)
  have "y \<notin> set ys"
  proof
    assume "y \<in> set ys"
    then obtain as bs where ys: "ys = as @ y # bs"
      by (auto simp: in_set_conv_decomp)
    with rest have "dir_location_chain dirs y (y # bs) root"
      using dir_chain_suffix by blast
    with Cons.prems x have "y # ys = y # bs"
      using dir_chain_unique by blast
    with ys show False by simp
  qed
  moreover from Cons.IH[OF rest Cons.prems(2)] have "distinct ys" .
  ultimately show ?case by simp
qed

lemma dir_loop_chain:
  "dir_location_chain dirs nxt ids root \<Longrightarrow> fmlookup dirs root = None \<Longrightarrow>
   ResolveKnownFolder os root w = (Inr folder, w') \<Longrightarrow>
   distinct ids \<Longrightarrow> set ids \<inter> seen = {} \<Longrightarrow> root \<notin> seen \<Longrightarrow>
     ResolveDirectory_loop os dirs ident (nxt, seen, lineage) w
       = (Inr (folder, lineage @ definitions_of dirs ids), w')"
proof (induction ids arbitrary: nxt seen lineage)
  case Nil
  then show ?case
    by (subst ResolveDirectory_loop.simps) (simp add: ResolveDirectory_iteration_def definitions_of_def)
next
  case (Cons y ys)
  from Cons.prems(1) obtain d where y: "nxt = y" and d: "fmlookup dirs y = Some d"
    and loc: "dr_Location d \<noteq> []" and rest: "dir_location_chain dirs (dr_Location d) ys root"
    by (auto split: option.splits)
  have fresh: "y \<notin> seen" using Cons.prems(5) by auto
  have ne: "root \<noteq> y" using d Cons.prems(2) by auto
  have "ResolveDirectory_loop os dirs ident (nxt, seen, lineage) w
      = ResolveDirectory_loop os dirs ident (dr_Location d, insert y seen, lineage @ [d]) w"
    by (subst ResolveDirectory_loop.simps) (simp add: ResolveDirectory_iteration_def y d loc fresh)
  also have "\<dots> = (Inr (folder, (lineage @ [d]) @ definitions_of dirs ys), w')"
    using Cons.prems ne by (intro Cons.IH[OF rest]) auto
  finally show ?case by (simp add: d definitions_of_def)
qed

lemma DirRef_Path_loop_joined:
  "list_all2 (\<lambda>dir l. localize (dr_Path dir) = Inr l) lineage ls \<Longrightarrow>
     DirRef_Path_loop localize join p lineage = Inr (foldl join p ls)"
  by (induction lineage ls arbitrary: p rule: list_all2_induct) auto



lemma key_loop_within_sound:
  "ResolveKey_loop_within n keys ident st = Some r \<Longrightarrow> ResolveKey_loop keys ident st = r"
proof (induction n arbitrary: st)
  case 0
  then show ?case by simp
next
  case (Suc n)
  then show ?case
    by (subst ResolveKey_loop.simps) (auto split: iteration.splits)
qed





lemma sublist_quoted: "sublist i (p @ quoted i @ s)"
  unfolding quoted_def sublist_def by (intro exI[of _ "p @ dq"] exI[of _ "dq @ s"]) simp

lemma names_dir_cycle_error:
  "names (dir_cycle_error ident nxt) ident \<and> names (dir_cycle_error ident nxt) nxt"
proof -
  have "Error (dir_cycle_error ident nxt) = ''failed to resolve the '' @ quoted ident @
     ('' directory: the '' @ quoted nxt @
     '' parent directory has a cyclic reference to itself in the deployment'' @ apos @ ''s resources'')"
    by (simp add: dir_cycle_error_def)
  moreover have "Error (dir_cycle_error ident nxt) = (''failed to resolve the '' @ quoted ident @
     '' directory: the '') @ quoted nxt @
     ('' parent directory has a cyclic reference to itself in the deployment'' @ apos @ ''s resources'')"
    by (simp add: dir_cycle_error_def)
  ultimately show ?thesis
    unfolding names_def by (metis sublist_quoted)
qed

lemma names_key_cycle_error:
  "names (key_cycle_error ident nxt) ident \<and> names (key_cycle_error ident nxt) nxt"
proof -
  have "Error (key_cycle_error ident nxt) = ''failed to resolve the '' @ quoted ident @
     ('' registry key: the '' @ quoted nxt @
     '' parent key has a cyclic reference to itself in the deployment'' @ apos @
     ''s registry resources'')"
    by (simp add: key_cycle_error_def)
  moreover have "Error (key_cycle_error ident nxt) = (''failed to resolve the '' @ quoted ident @
     '' registry key: the '') @ quoted nxt @
     ('' parent key has a cyclic reference to itself in the deployment'' @ apos @
     ''s registry resources'')"
    by (simp add: key_cycle_error_def)
  ultimately show ?thesis
    unfolding names_def by (metis sublist_quoted)
qed



lemma ResolveDirectory_cyclic_dirs:
  "ResolveDirectory os cyclic_dirs ''dirX'' w = (Inl (dir_cycle_error ''dirX'' ''dirY''), w)"
proof -
  have "ResolveDirectory_loop_within 3 os cyclic_dirs ''dirX''
          (''dirY'', {}, [\<lparr>dr_Location = ''dirY'', dr_Path = ''a''\<rparr>]) w
        = Some (Inl (dir_cycle_error ''dirX'' ''dirY''), w)"
    by (simp add: numeral_3_eq_3 ResolveDirectory_iteration_def cyclic_dirs_def)
  from dir_loop_within_sound[OF this] show ?thesis
    by (simp add: ResolveDirectory_def cyclic_dirs_def)
qed

lemma ResolveDirectory_chain:
  assumes chain: "dir_location_chain dirs ident (ident # ancestors) root"
    and root: "fmlookup dirs root = None"
    and folder: "knownFolders root = Some folder"
    and os: "os (guid folder) w = (Inr p, w')"
  shows "ResolveDirectory os dirs ident w =
           (Inr \<lparr>dref_Root = \<lparr>kf_ID = root, kf_Path = p, kf_Protected = protected folder\<rparr>,
                 dref_Lineage = definitions_of dirs (rev (ident # ancestors))\<rparr>, w')"
proof -
  from chain obtain data where data: "fmlookup dirs ident = Some data"
    and loc: "dr_Location data \<noteq> []"
    and rest: "dir_location_chain dirs (dr_Location data) ancestors root"
    by (auto split: option.splits)
  have rkf: "ResolveKnownFolder os root w =
      (Inr \<lparr>kf_ID = root, kf_Path = p, kf_Protected = protected folder\<rparr>, w')"
    by (simp add: ResolveKnownFolder_def folder os)
  have "distinct ancestors"
    using dir_chain_distinct[OF rest root] .
  from dir_loop_chain[OF rest root rkf this, of "{}" ident "[data]"]
  have "ResolveDirectory_loop os dirs ident (dr_Location data, {}, [data]) w =
      (Inr (\<lparr>kf_ID = root, kf_Path = p, kf_Protected = protected folder\<rparr>,
            [data] @ definitions_of dirs ancestors), w')"
    by simp
  then show ?thesis
    by (simp add: ResolveDirectory_def data loc definitions_of_def rev_map)
qed

lemma hd_definitions_of_rev:
  "ids \<noteq> [] \<Longrightarrow> hd (definitions_of dirs (rev ids)) = the (fmlookup dirs (last ids))"
  by (simp add: definitions_of_def hd_map hd_rev)

lemma dir_chain_hd_location:
  "dir_location_chain dirs x ids root \<Longrightarrow> ids \<noteq> [] \<Longrightarrow>
     dr_Location (the (fmlookup dirs (last ids))) = root"
proof (induction ids arbitrary: x)
  case Nil
  then show ?case by simp
next
  case (Cons y ys)
  then show ?case by (cases ys) (auto split: option.splits)
qed

lemma dir_loop_lineage_prefix:
  "ResolveDirectory_loop os dirs ident (nxt, seen, lineage) w = (Inr (root, lineage'), w') \<Longrightarrow>
     prefix lineage lineage'"
proof (induction "card (fmdom' dirs - seen)" arbitrary: nxt seen lineage rule: less_induct)
  case less
  show ?case
  proof (cases "ResolveDirectory_iteration os dirs ident (nxt, seen, lineage) w")
    case (Return r)
    with less.prems have "r = (Inr (root, lineage'), w')"
      by (subst (asm) ResolveDirectory_loop.simps) simp
    with Return show ?thesis
      by (auto simp: ResolveDirectory_iteration_def split: if_splits option.splits sum.splits prod.splits)
  next
    case (Continue st')
    from dir_iteration_Continue[OF Continue] obtain d where fresh: "nxt \<notin> seen"
      and d: "fmlookup dirs nxt = Some d"
      and st': "st' = (dr_Location d, insert nxt seen, lineage @ [d])"
      by blast
    have "fmdom' dirs - insert nxt seen \<subset> fmdom' dirs - seen"
      using fresh fmdom'I[OF d] by auto
    then have lt: "card (fmdom' dirs - insert nxt seen) < card (fmdom' dirs - seen)"
      by (intro psubset_card_mono) auto
    from less.prems Continue st'
    have "ResolveDirectory_loop os dirs ident (dr_Location d, insert nxt seen, lineage @ [d]) w
        = (Inr (root, lineage'), w')"
      by (subst (asm) ResolveDirectory_loop.simps) simp
    from less.hyps[OF lt this] show ?thesis
      by (rule append_prefixD)
  qed
qed

lemma key_iteration_Continue:
  assumes "ResolveKey_iteration keys ident (nxt, seen, lineage) = Continue st'"
  shows "nxt \<notin> seen \<and> (\<exists>d. fmlookup keys nxt = Some d \<and> rk_Location d \<noteq> [] \<and>
            st' = (rk_Location d, insert nxt seen, lineage @ [d]))"
  using assms
  by (simp add: ResolveKey_iteration_def split: if_splits option.splits sum.splits)

lemma key_loop_lineage_prefix:
  "ResolveKey_loop keys ident (nxt, seen, lineage) = Inr (root, lineage') \<Longrightarrow>
     prefix lineage lineage'"
proof (induction "card (fmdom' keys - seen)" arbitrary: nxt seen lineage rule: less_induct)
  case less
  show ?case
  proof (cases "ResolveKey_iteration keys ident (nxt, seen, lineage)")
    case (Return r)
    with less.prems have "r = Inr (root, lineage')"
      by (subst (asm) ResolveKey_loop.simps) simp
    with Return show ?thesis
      by (auto simp: ResolveKey_iteration_def split: if_splits option.splits sum.splits)
  next
    case (Continue st')
    from key_iteration_Continue[OF Continue] obtain d where fresh: "nxt \<notin> seen"
      and d: "fmlookup keys nxt = Some d"
      and st': "st' = (rk_Location d, insert nxt seen, lineage @ [d])"
      by blast
    have "fmdom' keys - insert nxt seen \<subset> fmdom' keys - seen"
      using fresh fmdom'I[OF d] by auto
    then have lt: "card (fmdom' keys - insert nxt seen) < card (fmdom' keys - seen)"
      by (intro psubset_card_mono) auto
    from less.prems Continue st'
    have "ResolveKey_loop keys ident (rk_Location d, insert nxt seen, lineage @ [d])
        = Inr (root, lineage')"
      by (subst (asm) ResolveKey_loop.simps) simp
    from less.hyps[OF lt this] show ?thesis
      by (rule append_prefixD)
  qed
qed

lemma ResolveDirectory_defined_lineage:
  assumes data: "fmlookup dirs ident = Some data"
    and res: "ResolveDirectory os dirs ident w = (Inr ref, w')"
  shows "dref_Lineage ref \<noteq> [] \<and> last (dref_Lineage ref) = data"
proof -
  from data res have loc: "dr_Location data \<noteq> []"
    by (auto simp: ResolveDirectory_def split: if_splits)
  from data res loc obtain root lineage where
    loop: "ResolveDirectory_loop os dirs ident (dr_Location data, {}, [data]) w = (Inr (root, lineage), w')"
    and lin: "dref_Lineage ref = rev lineage"
    by (auto simp: ResolveDirectory_def split: sum.splits prod.splits)
  from dir_loop_lineage_prefix[OF loop] obtain rest where "lineage = data # rest"
    by (auto simp: prefix_def)
  with lin show ?thesis by simp
qed

lemma ResolveKey_defined_lineage:
  assumes data: "fmlookup keys ident = Some data"
    and res: "ResolveKey keys ident = Inr ref"
  shows "kref_Lineage ref \<noteq> [] \<and> last (kref_Lineage ref) = data"
proof -
  from data res have loc: "rk_Location data \<noteq> []"
    by (auto simp: ResolveKey_def split: if_splits)
  from data res loc obtain root lineage where
    loop: "ResolveKey_loop keys ident (rk_Location data, {}, [data]) = Inr (root, lineage)"
    and lin: "kref_Lineage ref = rev lineage"
    by (auto simp: ResolveKey_def split: sum.splits prod.splits)
  from key_loop_lineage_prefix[OF loop] obtain rest where "lineage = data # rest"
    by (auto simp: prefix_def)
  with lin show ?thesis by simp
qed

lemma registryRoots_Some:
  "registryRoots k = Some root \<Longrightarrow>
     k = ''software'' \<and> root = \<lparr>key = PredefinedKeyLocalMachine, path = ''SOFTWARE''\<rparr>"
  by (auto simp: registryRoots_def split: if_splits)

lemma ResolveRoot_Some:
  "registryRoots k = Some root \<Longrightarrow>
     ResolveRoot k = Inr \<lparr>rr_ID = k, rr_PredefinedKey = key root, rr_Path = path root\<rparr>"
proof -
  assume r: "registryRoots k = Some root"
  from registryRoots_Some[OF r] have "key root = PredefinedKeyLocalMachine"
    by simp
  with r show ?thesis
    by (simp add: ResolveRoot_def PredefinedKeyHandle_def)
qed

lemma ResolveRoot_None: "registryRoots k = None \<Longrightarrow> ResolveRoot k = Inl ErrNotExist"
  by (simp add: ResolveRoot_def)

section \<open>Properties of the paths of references\<close>







section \<open>Properties of the errors of resolution\<close>

lemma sublist_quoted2: "sublist j (p @ quoted i @ s @ quoted j @ t)"
  using sublist_quoted[of j "p @ quoted i @ s" t] by simp

lemma names_Wrapf: "names (Wrapf (p @ quoted i @ s) e) i"
  using sublist_quoted[of i p "s @ Error e"] by (simp add: names_def)

lemma names_dir_errors:
  "names (dir_not_defined_error i) i"
  "names (dir_no_location_error i) i"
  "names (dir_parent_no_location_error i n) i"
  "names (dir_parent_not_defined_error i n) i"
  "names (file_not_defined_error i) i"
  "names (file_no_location_error i) i"
  unfolding names_def dir_not_defined_error_def dir_no_location_error_def
    dir_parent_no_location_error_def dir_parent_not_defined_error_def
    file_not_defined_error_def file_no_location_error_def Error.simps
  by (rule sublist_quoted)+

lemma names_dir_parent_errors:
  "names (dir_parent_no_location_error i n) n"
  "names (dir_parent_not_defined_error i n) n"
  unfolding names_def dir_parent_no_location_error_def dir_parent_not_defined_error_def Error.simps
  by (rule sublist_quoted2)+

lemma names_known_folder_error: "names (known_folder_error i err) i"
  unfolding known_folder_error_def by (rule names_Wrapf)

lemma names_key_errors:
  "names (key_not_defined_error i) i"
  "names (key_no_location_error i) i"
  "names (key_parent_no_location_error i n) i"
  "names (key_parent_not_defined_error i n) i"
  "names (value_not_defined_error i) i"
  "names (value_no_key_error i) i"
  unfolding names_def key_not_defined_error_def key_no_location_error_def
    key_parent_no_location_error_def key_parent_not_defined_error_def
    value_not_defined_error_def value_no_key_error_def Error.simps
  by (rule sublist_quoted)+

lemma names_key_parent_errors:
  "names (key_parent_no_location_error i n) n"
  "names (key_parent_not_defined_error i n) n"
  unfolding names_def key_parent_no_location_error_def key_parent_not_defined_error_def Error.simps
  by (rule sublist_quoted2)+

lemma ResolveKnownFolder_error:
  assumes "ResolveKnownFolder os ident w = (Inl e, w')"
  shows "(knownFolders ident = None \<and> e = ErrNotExist \<and> w' = w) \<or>
         (\<exists>folder err. knownFolders ident = Some folder \<and> os (guid folder) w = (Inl err, w') \<and>
            e = known_folder_error ident err)"
  using assms
  by (auto simp: ResolveKnownFolder_def known_folder_error_def split: option.splits sum.splits prod.splits)

lemma ResolveKnownFolder_world:
  "snd (ResolveKnownFolder os ident w) = w \<or> (\<exists>g. snd (ResolveKnownFolder os ident w) = snd (os g w))"
proof (cases "knownFolders ident")
  case None
  then show ?thesis by (simp add: ResolveKnownFolder_def)
next
  case (Some folder)
  then have "snd (ResolveKnownFolder os ident w) = snd (os (guid folder) w)"
    by (simp add: ResolveKnownFolder_def split: prod.splits sum.splits)
  then show ?thesis by blast
qed

lemma Is_ErrNotExist_known_folder_error [simp]:
  "Is_ErrNotExist (known_folder_error ident err) = Is_ErrNotExist err"
  by (simp add: known_folder_error_def)

lemma dir_iteration_Return_error:
  assumes "ResolveDirectory_iteration os dirs ident (nxt, seen, lineage) w = Return (Inl e, w')"
  shows "e = dir_cycle_error ident nxt \<or> e = dir_parent_no_location_error ident nxt \<or>
         e = dir_parent_not_defined_error ident nxt \<or>
         (\<exists>folder err. knownFolders nxt = Some folder \<and> e = known_folder_error nxt err)"
proof (cases "ResolveKnownFolder os nxt w")
  case (Pair r w1)
  show ?thesis
  proof (cases r)
    case (Inl err)
    with Pair ResolveKnownFolder_error[of os nxt w err w1]
    have "err = ErrNotExist \<or> (\<exists>folder err'. knownFolders nxt = Some folder \<and>
        err = known_folder_error nxt err')"
      by blast
    with assms Pair Inl show ?thesis
      by (auto simp: ResolveDirectory_iteration_def split: if_splits option.splits)
  next
    case (Inr folder)
    with assms Pair show ?thesis
      by (auto simp: ResolveDirectory_iteration_def split: if_splits option.splits)
  qed
qed

lemma dir_iteration_Return_world:
  assumes "ResolveDirectory_iteration os dirs ident (nxt, seen, lineage) w = Return (r, w')"
  shows "w' = w \<or> (\<exists>g. w' = snd (os g w))"
proof -
  from assms have "w' = w \<or> w' = snd (ResolveKnownFolder os nxt w)"
    by (auto simp: ResolveDirectory_iteration_def split: if_splits option.splits sum.splits prod.splits)
  with ResolveKnownFolder_world[of os nxt w] show ?thesis by metis
qed

lemma dir_loop_Return:
  "\<exists>nxt' seen' lineage'.
     ResolveDirectory_iteration os dirs ident (nxt', seen', lineage') w
       = Return (ResolveDirectory_loop os dirs ident (nxt, seen, lineage) w)"
proof (induction "card (fmdom' dirs - seen)" arbitrary: nxt seen lineage rule: less_induct)
  case less
  show ?case
  proof (cases "ResolveDirectory_iteration os dirs ident (nxt, seen, lineage) w")
    case (Return r)
    then have "ResolveDirectory_loop os dirs ident (nxt, seen, lineage) w = r"
      by (subst ResolveDirectory_loop.simps) simp
    with Return show ?thesis by blast
  next
    case (Continue st')
    from dir_iteration_Continue[OF Continue] obtain d where fresh: "nxt \<notin> seen"
      and d: "fmlookup dirs nxt = Some d"
      and st': "st' = (dr_Location d, insert nxt seen, lineage @ [d])"
      by blast
    have "fmdom' dirs - insert nxt seen \<subset> fmdom' dirs - seen"
      using fresh fmdom'I[OF d] by auto
    then have lt: "card (fmdom' dirs - insert nxt seen) < card (fmdom' dirs - seen)"
      by (intro psubset_card_mono) auto
    have "ResolveDirectory_loop os dirs ident (nxt, seen, lineage) w
        = ResolveDirectory_loop os dirs ident (dr_Location d, insert nxt seen, lineage @ [d]) w"
      by (subst ResolveDirectory_loop.simps) (simp add: Continue st')
    with less.hyps[OF lt, of "dr_Location d" "lineage @ [d]"] show ?thesis by simp
  qed
qed

lemma key_loop_Return:
  "\<exists>nxt' seen' lineage'.
     ResolveKey_iteration keys ident (nxt', seen', lineage')
       = Return (ResolveKey_loop keys ident (nxt, seen, lineage))"
proof (induction "card (fmdom' keys - seen)" arbitrary: nxt seen lineage rule: less_induct)
  case less
  show ?case
  proof (cases "ResolveKey_iteration keys ident (nxt, seen, lineage)")
    case (Return r)
    then have "ResolveKey_loop keys ident (nxt, seen, lineage) = r"
      by (subst ResolveKey_loop.simps) simp
    with Return show ?thesis by blast
  next
    case (Continue st')
    from key_iteration_Continue[OF Continue] obtain d where fresh: "nxt \<notin> seen"
      and d: "fmlookup keys nxt = Some d"
      and st': "st' = (rk_Location d, insert nxt seen, lineage @ [d])"
      by blast
    have "fmdom' keys - insert nxt seen \<subset> fmdom' keys - seen"
      using fresh fmdom'I[OF d] by auto
    then have lt: "card (fmdom' keys - insert nxt seen) < card (fmdom' keys - seen)"
      by (intro psubset_card_mono) auto
    have "ResolveKey_loop keys ident (nxt, seen, lineage)
        = ResolveKey_loop keys ident (rk_Location d, insert nxt seen, lineage @ [d])"
      by (subst ResolveKey_loop.simps) (simp add: Continue st')
    with less.hyps[OF lt, of "rk_Location d" "lineage @ [d]"] show ?thesis by simp
  qed
qed

lemma ResolveRoot_error: "ResolveRoot k = Inl e \<Longrightarrow> registryRoots k = None \<and> e = ErrNotExist"
  by (cases "registryRoots k") (auto simp: ResolveRoot_None ResolveRoot_Some)

lemma key_iteration_Return_error:
  assumes "ResolveKey_iteration keys ident (nxt, seen, lineage) = Return (Inl e)"
  shows "e = key_cycle_error ident nxt \<or> e = key_parent_no_location_error ident nxt \<or>
         e = key_parent_not_defined_error ident nxt"
proof (cases "ResolveRoot nxt")
  case (Inl err)
  with ResolveRoot_error have "err = ErrNotExist" by blast
  with assms Inl show ?thesis
    by (auto simp: ResolveKey_iteration_def split: if_splits option.splits)
next
  case (Inr root)
  with assms show ?thesis
    by (auto simp: ResolveKey_iteration_def split: if_splits option.splits)
qed

lemma names_dir_iteration_error:
  assumes "ResolveDirectory_iteration os dirs ident (nxt, seen, lineage) w = Return (Inl e, w')"
  shows "names e nxt \<and>
         (names e ident \<or> (\<exists>folder err. knownFolders nxt = Some folder \<and> e = known_folder_error nxt err))"
  using dir_iteration_Return_error[OF assms] names_dir_errors names_dir_parent_errors
    names_dir_cycle_error names_known_folder_error
  by metis

lemma names_key_iteration_error:
  assumes "ResolveKey_iteration keys ident (nxt, seen, lineage) = Return (Inl e)"
  shows "names e nxt \<and> names e ident"
  using key_iteration_Return_error[OF assms] names_key_errors names_key_parent_errors
    names_key_cycle_error
  by metis

lemma ResolveDirectory_error:
  assumes "ResolveDirectory os dirs ident w = (Inl e, w')"
  shows "names e ident \<or>
         (\<exists>nxt folder err. knownFolders nxt = Some folder \<and> e = known_folder_error nxt err \<and> names e nxt)"
proof (cases "fmlookup dirs ident")
  case None
  show ?thesis
  proof (cases "ResolveKnownFolder os ident w")
    case (Pair r w1)
    show ?thesis
    proof (cases r)
      case (Inl err)
      from ResolveKnownFolder_error[of os ident w err w1] Pair Inl
      have "err = ErrNotExist \<or> (\<exists>er. err = known_folder_error ident er)"
        by blast
      with assms None Pair Inl have "e = dir_not_defined_error ident \<or>
          (\<exists>er. e = known_folder_error ident er)"
        by (auto simp: ResolveDirectory_def split: if_splits)
      with names_dir_errors names_known_folder_error show ?thesis by metis
    next
      case (Inr folder)
      with assms None Pair show ?thesis by (simp add: ResolveDirectory_def)
    qed
  qed
next
  case (Some data)
  show ?thesis
  proof (cases "dr_Location data = []")
    case True
    with assms Some have "e = dir_no_location_error ident"
      by (simp add: ResolveDirectory_def)
    with names_dir_errors show ?thesis by metis
  next
    case False
    with assms Some
    have loop: "ResolveDirectory_loop os dirs ident (dr_Location data, {}, [data]) w = (Inl e, w')"
      by (auto simp: ResolveDirectory_def split: sum.splits prod.splits)
    from dir_loop_Return[of os dirs ident w "dr_Location data" "{}" "[data]"] loop
    obtain nxt seen lineage where
      "ResolveDirectory_iteration os dirs ident (nxt, seen, lineage) w = Return (Inl e, w')"
      by auto
    from names_dir_iteration_error[OF this] show ?thesis by blast
  qed
qed

lemma ResolveDirectory_world:
  "snd (ResolveDirectory os dirs ident w) = w \<or>
   (\<exists>g. snd (ResolveDirectory os dirs ident w) = snd (os g w))"
proof (cases "fmlookup dirs ident")
  case None
  then have "snd (ResolveDirectory os dirs ident w) = snd (ResolveKnownFolder os ident w)"
    by (simp add: ResolveDirectory_def split: prod.splits sum.splits)
  with ResolveKnownFolder_world[of os ident w] show ?thesis by metis
next
  case (Some data)
  show ?thesis
  proof (cases "dr_Location data = []")
    case True
    with Some show ?thesis by (simp add: ResolveDirectory_def)
  next
    case False
    obtain r w1 where loop:
      "ResolveDirectory_loop os dirs ident (dr_Location data, {}, [data]) w = (r, w1)"
      by (cases "ResolveDirectory_loop os dirs ident (dr_Location data, {}, [data]) w")
    from dir_loop_Return[of os dirs ident w "dr_Location data" "{}" "[data]"] loop
    obtain nxt seen lineage where
      "ResolveDirectory_iteration os dirs ident (nxt, seen, lineage) w = Return (r, w1)"
      by auto
    from dir_iteration_Return_world[OF this] have "w1 = w \<or> (\<exists>g. w1 = snd (os g w))" .
    moreover from Some False loop have "snd (ResolveDirectory os dirs ident w) = w1"
      by (simp add: ResolveDirectory_def split: sum.splits prod.splits)
    ultimately show ?thesis by metis
  qed
qed

lemma ResolveKey_error:
  assumes "ResolveKey keys ident = Inl e"
  shows "names e ident"
proof (cases "fmlookup keys ident")
  case None
  with assms ResolveRoot_error[of ident] have "e = key_not_defined_error ident"
    by (auto simp: ResolveKey_def split: sum.splits if_splits)
  with names_key_errors show ?thesis by metis
next
  case (Some data)
  show ?thesis
  proof (cases "rk_Location data = []")
    case True
    with assms Some have "e = key_no_location_error ident"
      by (simp add: ResolveKey_def)
    with names_key_errors show ?thesis by metis
  next
    case False
    with assms Some
    have loop: "ResolveKey_loop keys ident (rk_Location data, {}, [data]) = Inl e"
      by (auto simp: ResolveKey_def split: sum.splits prod.splits)
    from key_loop_Return[of keys ident "rk_Location data" "{}" "[data]"] loop
    obtain nxt seen lineage where
      "ResolveKey_iteration keys ident (nxt, seen, lineage) = Return (Inl e)"
      by auto
    from names_key_iteration_error[OF this] show ?thesis by blast
  qed
qed

lemma ResolveFile_error:
  assumes "ResolveFile os res f w = (Inl e, w')"
  shows "names e f \<and>
         (\<forall>data. fmlookup (Files res) f = Some data \<and> fr_Location data \<noteq> [] \<longrightarrow>
            (\<exists>e'. ResolveDirectory os (Directories res) (fr_Location data) w = (Inl e', w') \<and>
                  Error e = ''failed to resolve the '' @ quoted f @ '' file: '' @ Error e'))"
proof (cases "fmlookup (Files res) f")
  case None
  with assms have "e = file_not_defined_error f"
    by (simp add: ResolveFile_def)
  with None names_dir_errors show ?thesis by simp
next
  case (Some data)
  show ?thesis
  proof (cases "fr_Location data = []")
    case True
    with assms Some have "e = file_no_location_error f"
      by (simp add: ResolveFile_def)
    with Some True names_dir_errors show ?thesis by simp
  next
    case False
    with assms Some obtain e' where
      dir: "ResolveDirectory os (Directories res) (fr_Location data) w = (Inl e', w')"
      and e: "e = Wrapf (''failed to resolve the '' @ quoted f @ '' file: '') e'"
      by (auto simp: ResolveFile_def split: sum.splits prod.splits)
    from e have "names e f"
      using names_Wrapf[of "''failed to resolve the ''" f "'' file: ''" e'] by simp
    with Some dir e show ?thesis by simp
  qed
qed

lemma ResolveFile_world:
  "snd (ResolveFile os res f w) = w \<or> (\<exists>g. snd (ResolveFile os res f w) = snd (os g w))"
proof (cases "fmlookup (Files res) f")
  case None
  then show ?thesis by (simp add: ResolveFile_def)
next
  case (Some data)
  show ?thesis
  proof (cases "fr_Location data = []")
    case True
    with Some show ?thesis by (simp add: ResolveFile_def)
  next
    case False
    with Some have "snd (ResolveFile os res f w)
        = snd (ResolveDirectory os (Directories res) (fr_Location data) w)"
      by (simp add: ResolveFile_def split: sum.splits prod.splits)
    with ResolveDirectory_world[of os "Directories res" "fr_Location data" w]
    show ?thesis by metis
  qed
qed

lemma ResolveValue_error:
  assumes "ResolveValue res v = Inl e"
  shows "names e v \<and>
         (\<forall>data. fmlookup (Values res) v = Some data \<and> rv_Key data \<noteq> [] \<longrightarrow>
            (\<exists>e'. ResolveKey (Keys res) (rv_Key data) = Inl e' \<and>
                  Error e = ''failed to resolve the '' @ quoted v @ '' registry value: '' @ Error e'))"
proof (cases "fmlookup (Values res) v")
  case None
  with assms have "e = value_not_defined_error v"
    by (simp add: ResolveValue_def)
  with None names_key_errors show ?thesis by simp
next
  case (Some data)
  show ?thesis
  proof (cases "rv_Key data = []")
    case True
    with assms Some have "e = value_no_key_error v"
      by (simp add: ResolveValue_def)
    with Some True names_key_errors show ?thesis by simp
  next
    case False
    with assms Some obtain e' where
      k: "ResolveKey (Keys res) (rv_Key data) = Inl e'"
      and e: "e = Wrapf (''failed to resolve the '' @ quoted v @ '' registry value: '') e'"
      by (auto simp: ResolveValue_def split: sum.splits)
    from e have "names e v"
      using names_Wrapf[of "''failed to resolve the ''" v "'' registry value: ''" e'] by simp
    with Some k e show ?thesis by simp
  qed
qed

section \<open>Properties of the model of the JSON library\<close>



lemma json_error_rejected:
  "fl_Err (ro_Data aux) = Some err \<Longrightarrow>
     \<exists>b e. json_Marshal_recordOf aux = Inr b \<and> json_Unmarshal_recordOf b = Inl e"
  by (simp add: json_Marshal_recordOf_def json_Unmarshal_recordOf_def json_field_def
      json_Unmarshal_string_def json_Unmarshal_FlowLockNotAcquired_def
      json_Marshal_FlowLockNotAcquired_def json_Unmarshal_error_def json_Marshal_error_def)

section \<open>Claims about resolution\<close>

text \<open>
  Claim C1, as amended. Let the definitions starting at \<open>ident\<close> form a chain of non-empty
  locations that ends at \<open>root\<close>, let \<open>root\<close> have no definition of its own and be a known
  folder whose path the operating system returns as \<open>p\<close>. Then \<^verbatim>\<open>ResolveDirectory\<close>
  returns a reference anchored at that folder whose lineage holds the definitions of the
  chain from the one located at \<open>root\<close> to the definition of \<open>ident\<close>. When
  \<^verbatim>\<open>filepath.Localize\<close> accepts the path of every definition of the lineage, \<^verbatim>\<open>Path()\<close>
  is \<open>p\<close> joined with the localized paths in that order. For the directories \<^verbatim>\<open>dirA\<close>
  and \<^verbatim>\<open>dirB\<close> of the spec, with the fragments \<^verbatim>\<open>Acme\<close> and \<^verbatim>\<open>Tool\<close> accepted and
  joined by a backslash, the path of \<^verbatim>\<open>dirB\<close> is the path of the folder followed by
  \<^verbatim>\<open>Acme\<close> and \<^verbatim>\<open>Tool\<close>.
\<close>

theorem resolve_directory_lineage_and_path:
  "(dir_location_chain dirs ident (ident # ancestors) root \<and> fmlookup dirs root = None \<and>
    knownFolders root = Some folder \<and> os (guid folder) w = (Inr p, w') \<longrightarrow>
      (\<exists>ref. ResolveDirectory os dirs ident w = (Inr ref, w') \<and>
         dref_Root ref = \<lparr>kf_ID = root, kf_Path = p, kf_Protected = protected folder\<rparr> \<and>
         dref_Lineage ref = definitions_of dirs (rev (ident # ancestors)) \<and>
         dr_Location (hd (dref_Lineage ref)) = root \<and>
         fmlookup dirs ident = Some (last (dref_Lineage ref)) \<and>
         (\<forall>ls. list_all2 (\<lambda>dir l. localize (dr_Path dir) = Inr l) (dref_Lineage ref) ls \<longrightarrow>
            DirRef_Path localize join ref = Inr (foldl join p ls)))) \<and>
   (os FOLDERID_ProgramFiles w = (Inr program_files_path, w') \<and>
    localize ''Acme'' = Inr ''Acme'' \<and> localize ''Tool'' = Inr ''Tool'' \<and>
    join program_files_path ''Acme'' = program_files_path @ bsl @ ''Acme'' \<and>
    join (program_files_path @ bsl @ ''Acme'') ''Tool''
      = program_files_path @ bsl @ ''Acme'' @ bsl @ ''Tool'' \<longrightarrow>
      (\<exists>ref. ResolveDirectory os example_dirs ''dirB'' w = (Inr ref, w') \<and>
         DirRef_Path localize join ref = Inr (program_files_path @ bsl @ ''Acme'' @ bsl @ ''Tool'')))"
proof (intro conjI impI)
  assume h: "dir_location_chain dirs ident (ident # ancestors) root \<and> fmlookup dirs root = None \<and>
    knownFolders root = Some folder \<and> os (guid folder) w = (Inr p, w')"
  then have chain: "dir_location_chain dirs ident (ident # ancestors) root"
    and root: "fmlookup dirs root = None"
    and folder: "knownFolders root = Some folder"
    and os: "os (guid folder) w = (Inr p, w')"
    by blast+
  let ?ref = "\<lparr>dref_Root = \<lparr>kf_ID = root, kf_Path = p, kf_Protected = protected folder\<rparr>,
               dref_Lineage = definitions_of dirs (rev (ident # ancestors))\<rparr>"
  have res: "ResolveDirectory os dirs ident w = (Inr ?ref, w')"
    using ResolveDirectory_chain[where os = os and w = w, OF chain root folder os] .
  from chain obtain data where data: "fmlookup dirs ident = Some data"
    by (auto split: option.splits)
  have lst: "fmlookup dirs ident = Some (last (dref_Lineage ?ref))"
    by (simp add: definitions_of_def data)
  have "dr_Location (the (fmlookup dirs (last (ident # ancestors)))) = root"
    using dir_chain_hd_location[OF chain] by blast
  moreover have "hd (definitions_of dirs (rev (ident # ancestors)))
      = the (fmlookup dirs (last (ident # ancestors)))"
    by (rule hd_definitions_of_rev) blast
  ultimately have "dr_Location (hd (definitions_of dirs (rev (ident # ancestors)))) = root"
    by (simp only:)
  then have hd: "dr_Location (hd (dref_Lineage ?ref)) = root"
    by (simp only: DirRef.simps)
  have path: "\<forall>ls. list_all2 (\<lambda>dir l. localize (dr_Path dir) = Inr l) (dref_Lineage ?ref) ls \<longrightarrow>
            DirRef_Path localize join ?ref = Inr (foldl join p ls)"
    by (simp add: DirRef_Path_def DirRef_Path_loop_joined)
  show "\<exists>ref. ResolveDirectory os dirs ident w = (Inr ref, w') \<and>
         dref_Root ref = \<lparr>kf_ID = root, kf_Path = p, kf_Protected = protected folder\<rparr> \<and>
         dref_Lineage ref = definitions_of dirs (rev (ident # ancestors)) \<and>
         dr_Location (hd (dref_Lineage ref)) = root \<and>
         fmlookup dirs ident = Some (last (dref_Lineage ref)) \<and>
         (\<forall>ls. list_all2 (\<lambda>dir l. localize (dr_Path dir) = Inr l) (dref_Lineage ref) ls \<longrightarrow>
            DirRef_Path localize join ref = Inr (foldl join p ls))"
    using res hd lst path by (intro exI[of _ ?ref]) simp
next
  assume e: "os FOLDERID_ProgramFiles w = (Inr program_files_path, w') \<and>
    localize ''Acme'' = Inr ''Acme'' \<and> localize ''Tool'' = Inr ''Tool'' \<and>
    join program_files_path ''Acme'' = program_files_path @ bsl @ ''Acme'' \<and>
    join (program_files_path @ bsl @ ''Acme'') ''Tool''
      = program_files_path @ bsl @ ''Acme'' @ bsl @ ''Tool''"
  have chain: "dir_location_chain example_dirs ''dirB'' (''dirB'' # [''dirA'']) ''program-files''"
    by (simp add: example_dirs_def)
  have root: "fmlookup example_dirs ''program-files'' = None"
    by (simp add: example_dirs_def)
  have folder: "knownFolders ''program-files'' = Some \<lparr>guid = FOLDERID_ProgramFiles, protected = False\<rparr>"
    by (simp add: knownFolders_def)
  have os: "os (guid \<lparr>guid = FOLDERID_ProgramFiles, protected = False\<rparr>) w = (Inr program_files_path, w')"
    using e by simp
  let ?ref = "\<lparr>dref_Root = \<lparr>kf_ID = ''program-files'', kf_Path = program_files_path,
                            kf_Protected = False\<rparr>,
               dref_Lineage = [\<lparr>dr_Location = ''program-files'', dr_Path = ''Acme''\<rparr>,
                               \<lparr>dr_Location = ''dirA'', dr_Path = ''Tool''\<rparr>]\<rparr>"
  have res: "ResolveDirectory os example_dirs ''dirB'' w = (Inr ?ref, w')"
    using ResolveDirectory_chain[where os = os and w = w, OF chain root folder os]
    by (simp add: definitions_of_def example_dirs_def)
  have "DirRef_Path localize join ?ref = Inr (join (join program_files_path ''Acme'') ''Tool'')"
    using e by (simp add: DirRef_Path_def)
  also have "join (join program_files_path ''Acme'') ''Tool''
      = program_files_path @ bsl @ ''Acme'' @ bsl @ ''Tool''"
    using e by (simp only:)
  finally have "DirRef_Path localize join ?ref
      = Inr (program_files_path @ bsl @ ''Acme'' @ bsl @ ''Tool'')" .
  with res show "\<exists>ref. ResolveDirectory os example_dirs ''dirB'' w = (Inr ref, w') \<and>
         DirRef_Path localize join ref = Inr (program_files_path @ bsl @ ''Acme'' @ bsl @ ''Tool'')"
    by blast
qed

theorem resolve_directory_lineage_and_path_witness:
  "dir_location_chain example_dirs ''dirB'' [''dirB'', ''dirA''] ''program-files'' \<and>
   fmlookup example_dirs ''program-files'' = None \<and>
   knownFolders ''program-files'' = Some \<lparr>guid = FOLDERID_ProgramFiles, protected = False\<rparr> \<and>
   example_os FOLDERID_ProgramFiles 0 = (Inr program_files_path, 1) \<and>
   (\<exists>ref. ResolveDirectory example_os example_dirs ''dirB'' 0 = (Inr ref, 1) \<and>
      dref_Lineage ref = [\<lparr>dr_Location = ''program-files'', dr_Path = ''Acme''\<rparr>,
                          \<lparr>dr_Location = ''dirA'', dr_Path = ''Tool''\<rparr>] \<and>
      DirRef_Path example_Localize example_Join ref
        = Inr (program_files_path @ bsl @ ''Acme'' @ bsl @ ''Tool''))"
proof -
  have chain: "dir_location_chain example_dirs ''dirB'' [''dirB'', ''dirA''] ''program-files''"
    by (simp add: example_dirs_def)
  have root: "fmlookup example_dirs ''program-files'' = None"
    by (simp add: example_dirs_def)
  have folder: "knownFolders ''program-files'' = Some \<lparr>guid = FOLDERID_ProgramFiles, protected = False\<rparr>"
    by (simp add: knownFolders_def)
  have os: "example_os FOLDERID_ProgramFiles 0 = (Inr program_files_path, 1)"
    by (simp add: example_os_def)
  have os': "example_os (guid \<lparr>guid = FOLDERID_ProgramFiles, protected = False\<rparr>) 0
      = (Inr program_files_path, 1)"
    by (simp add: example_os_def)
  have acme: "example_Localize ''Acme'' = Inr ''Acme''"
    by (simp add: example_Localize_def Localize_windows_def ValidPath_def)
  have tool: "example_Localize ''Tool'' = Inr ''Tool''"
    by (simp add: example_Localize_def Localize_windows_def ValidPath_def)
  have lin: "definitions_of example_dirs (rev [''dirB'', ''dirA''])
      = [\<lparr>dr_Location = ''program-files'', dr_Path = ''Acme''\<rparr>,
         \<lparr>dr_Location = ''dirA'', dr_Path = ''Tool''\<rparr>]"
    by (simp add: definitions_of_def example_dirs_def)
  have all: "list_all2 (\<lambda>dir l. example_Localize (dr_Path dir) = Inr l)
      [\<lparr>dr_Location = ''program-files'', dr_Path = ''Acme''\<rparr>,
       \<lparr>dr_Location = ''dirA'', dr_Path = ''Tool''\<rparr>] [''Acme'', ''Tool'']"
    by (simp add: acme tool)
  from resolve_directory_lineage_and_path[of example_dirs "''dirB''" "[''dirA'']" "''program-files''"
      "\<lparr>guid = FOLDERID_ProgramFiles, protected = False\<rparr>" example_os 0 program_files_path 1
      example_Localize example_Join]
    chain root folder os'
  obtain ref where r: "ResolveDirectory example_os example_dirs ''dirB'' 0 = (Inr ref, 1)"
    and l: "dref_Lineage ref = definitions_of example_dirs (rev [''dirB'', ''dirA''])"
    and p: "\<forall>ls. list_all2 (\<lambda>dir l. example_Localize (dr_Path dir) = Inr l) (dref_Lineage ref) ls \<longrightarrow>
            DirRef_Path example_Localize example_Join ref = Inr (foldl example_Join program_files_path ls)"
    by blast
  from l lin all have "list_all2 (\<lambda>dir l. example_Localize (dr_Path dir) = Inr l)
      (dref_Lineage ref) [''Acme'', ''Tool'']"
    by (simp only:)
  with p have "DirRef_Path example_Localize example_Join ref
      = Inr (foldl example_Join program_files_path [''Acme'', ''Tool''])"
    by blast
  then have "DirRef_Path example_Localize example_Join ref
        = Inr (program_files_path @ bsl @ ''Acme'' @ bsl @ ''Tool'')"
    by (simp add: example_Join_def)
  with r l lin chain root folder os show ?thesis by auto
qed

theorem resolve_directory_path_counterexample:
  "dir_location_chain escaping_dirs ''dirA'' [''dirA''] ''program-files'' \<and>
   ResolveDirectory example_os escaping_dirs ''dirA'' 0 =
     (Inr \<lparr>dref_Root = \<lparr>kf_ID = ''program-files'', kf_Path = program_files_path, kf_Protected = False\<rparr>,
           dref_Lineage = [\<lparr>dr_Location = ''program-files'', dr_Path = ''..''\<rparr>]\<rparr>, 1) \<and>
   DirRef_Path example_Localize example_Join
     \<lparr>dref_Root = \<lparr>kf_ID = ''program-files'', kf_Path = program_files_path, kf_Protected = False\<rparr>,
      dref_Lineage = [\<lparr>dr_Location = ''program-files'', dr_Path = ''..''\<rparr>]\<rparr>
     = Inl ErrInvalidPath"
proof -
  have chain: "dir_location_chain escaping_dirs ''dirA'' [''dirA''] ''program-files''"
    by (simp add: escaping_dirs_def)
  have root: "fmlookup escaping_dirs ''program-files'' = None"
    by (simp add: escaping_dirs_def)
  have folder: "knownFolders ''program-files'' = Some \<lparr>guid = FOLDERID_ProgramFiles, protected = False\<rparr>"
    by (simp add: knownFolders_def)
  have os: "example_os (guid \<lparr>guid = FOLDERID_ProgramFiles, protected = False\<rparr>) 0
      = (Inr program_files_path, 1)"
    by (simp add: example_os_def)
  have res: "ResolveDirectory example_os escaping_dirs ''dirA'' 0 =
     (Inr \<lparr>dref_Root = \<lparr>kf_ID = ''program-files'', kf_Path = program_files_path, kf_Protected = False\<rparr>,
           dref_Lineage = [\<lparr>dr_Location = ''program-files'', dr_Path = ''..''\<rparr>]\<rparr>, 1)"
    using ResolveDirectory_chain[where os = example_os and w = 0, OF chain root folder os]
    by (simp add: definitions_of_def escaping_dirs_def)
  have "example_Localize ''..'' = Inl ErrInvalidPath"
    by (simp add: example_Localize_def Localize_windows_def ValidPath_def)
  then have "DirRef_Path example_Localize example_Join
     \<lparr>dref_Root = \<lparr>kf_ID = ''program-files'', kf_Path = program_files_path, kf_Protected = False\<rparr>,
      dref_Lineage = [\<lparr>dr_Location = ''program-files'', dr_Path = ''..''\<rparr>]\<rparr>
     = Inl ErrInvalidPath"
    by (simp add: DirRef_Path_def)
  with chain res show ?thesis by blast
qed



text \<open>
  Claim C6, as amended. The definition of \<open>ident\<close> is looked up first. When \<open>ident\<close> has
  no definition, the table of known roots is consulted: a known folder whose path the
  operating system returns (a registry root) gives the reference with an empty lineage
  anchored there; a failure of the operating system is returned as the error of the known
  folder, unless it is a not-exist error; an unknown ID gives the not-defined error. When
  \<open>ident\<close> has a definition, that definition is used, also when \<open>ident\<close> is the ID of a
  known root: an empty location gives the no-location error, and every reference that is
  returned has a lineage that ends with the definition of \<open>ident\<close>.
\<close>

theorem resolve_looks_up_definition_first:
  "(fmlookup dirs ident = None \<and> knownFolders ident = Some folder \<and>
    os (guid folder) w = (Inr p, w') \<longrightarrow>
      ResolveDirectory os dirs ident w =
        (Inr \<lparr>dref_Root = \<lparr>kf_ID = ident, kf_Path = p, kf_Protected = protected folder\<rparr>,
              dref_Lineage = []\<rparr>, w')) \<and>
   (fmlookup dirs ident = None \<and> knownFolders ident = Some folder \<and>
    os (guid folder) w = (Inl err, w') \<longrightarrow>
      ResolveDirectory os dirs ident w =
        (Inl (if Is_ErrNotExist err then dir_not_defined_error ident
              else Wrapf (''the '' @ quoted ident @ '' known folder could not be resolved: '') err), w')) \<and>
   (fmlookup dirs ident = None \<and> knownFolders ident = None \<longrightarrow>
      ResolveDirectory os dirs ident w = (Inl (dir_not_defined_error ident), w)) \<and>
   (fmlookup dirs ident = Some data \<and> dr_Location data = [] \<longrightarrow>
      ResolveDirectory os dirs ident w = (Inl (dir_no_location_error ident), w)) \<and>
   (fmlookup dirs ident = Some data \<and> ResolveDirectory os dirs ident w = (Inr ref, w') \<longrightarrow>
      dref_Lineage ref \<noteq> [] \<and> last (dref_Lineage ref) = data) \<and>
   (fmlookup keys k = None \<and> registryRoots k = Some root \<longrightarrow>
      ResolveKey keys k =
        Inr \<lparr>kref_Root = \<lparr>rr_ID = k, rr_PredefinedKey = key root, rr_Path = path root\<rparr>,
             kref_Lineage = []\<rparr>) \<and>
   (fmlookup keys k = None \<and> registryRoots k = None \<longrightarrow>
      ResolveKey keys k = Inl (key_not_defined_error k)) \<and>
   (fmlookup keys k = Some kdata \<and> rk_Location kdata = [] \<longrightarrow>
      ResolveKey keys k = Inl (key_no_location_error k)) \<and>
   (fmlookup keys k = Some kdata \<and> ResolveKey keys k = Inr kref \<longrightarrow>
      kref_Lineage kref \<noteq> [] \<and> last (kref_Lineage kref) = kdata)"
proof (intro conjI impI)
  assume "fmlookup dirs ident = None \<and> knownFolders ident = Some folder \<and>
    os (guid folder) w = (Inr p, w')"
  then show "ResolveDirectory os dirs ident w =
        (Inr \<lparr>dref_Root = \<lparr>kf_ID = ident, kf_Path = p, kf_Protected = protected folder\<rparr>,
              dref_Lineage = []\<rparr>, w')"
    by (simp add: ResolveDirectory_def ResolveKnownFolder_def)
next
  assume "fmlookup dirs ident = None \<and> knownFolders ident = Some folder \<and>
    os (guid folder) w = (Inl err, w')"
  then show "ResolveDirectory os dirs ident w =
        (Inl (if Is_ErrNotExist err then dir_not_defined_error ident
              else Wrapf (''the '' @ quoted ident @ '' known folder could not be resolved: '') err), w')"
    by (simp add: ResolveDirectory_def ResolveKnownFolder_def)
next
  assume "fmlookup dirs ident = None \<and> knownFolders ident = None"
  then show "ResolveDirectory os dirs ident w = (Inl (dir_not_defined_error ident), w)"
    by (simp add: ResolveDirectory_def ResolveKnownFolder_def)
next
  assume "fmlookup dirs ident = Some data \<and> dr_Location data = []"
  then show "ResolveDirectory os dirs ident w = (Inl (dir_no_location_error ident), w)"
    by (simp add: ResolveDirectory_def)
next
  assume h: "fmlookup dirs ident = Some data \<and> ResolveDirectory os dirs ident w = (Inr ref, w')"
  then have a: "fmlookup dirs ident = Some data"
    and b: "ResolveDirectory os dirs ident w = (Inr ref, w')"
    by simp_all
  from ResolveDirectory_defined_lineage[OF a b] show "dref_Lineage ref \<noteq> []"
    by simp
  from ResolveDirectory_defined_lineage[OF a b] show "last (dref_Lineage ref) = data"
    by simp
next
  assume "fmlookup keys k = None \<and> registryRoots k = Some root"
  then show "ResolveKey keys k =
        Inr \<lparr>kref_Root = \<lparr>rr_ID = k, rr_PredefinedKey = key root, rr_Path = path root\<rparr>,
             kref_Lineage = []\<rparr>"
    by (simp add: ResolveKey_def ResolveRoot_Some)
next
  assume "fmlookup keys k = None \<and> registryRoots k = None"
  then show "ResolveKey keys k = Inl (key_not_defined_error k)"
    by (simp add: ResolveKey_def ResolveRoot_None)
next
  assume "fmlookup keys k = Some kdata \<and> rk_Location kdata = []"
  then show "ResolveKey keys k = Inl (key_no_location_error k)"
    by (simp add: ResolveKey_def)
next
  assume h: "fmlookup keys k = Some kdata \<and> ResolveKey keys k = Inr kref"
  then have a: "fmlookup keys k = Some kdata" and b: "ResolveKey keys k = Inr kref"
    by simp_all
  from ResolveKey_defined_lineage[OF a b] show "kref_Lineage kref \<noteq> []"
    by simp
  from ResolveKey_defined_lineage[OF a b] show "last (kref_Lineage kref) = kdata"
    by simp
qed

theorem resolve_looks_up_definition_first_counterexample:
  "knownFolders ''program-files'' = Some \<lparr>guid = FOLDERID_ProgramFiles, protected = False\<rparr> \<and>
   ResolveDirectory example_os shadowing_dirs ''program-files'' 0 =
     (Inr \<lparr>dref_Root = \<lparr>kf_ID = ''program-data'', kf_Path = ''C:'' @ bsl @ ''ProgramData'',
                         kf_Protected = False\<rparr>,
           dref_Lineage = [\<lparr>dr_Location = ''program-data'', dr_Path = ''Shadow''\<rparr>]\<rparr>, 1) \<and>
   registryRoots ''software'' = Some \<lparr>key = PredefinedKeyLocalMachine, path = ''SOFTWARE''\<rparr> \<and>
   ResolveKey shadowing_keys ''software'' = Inl (key_parent_not_defined_error ''software'' ''hklm'')"
proof (intro conjI)
  show "knownFolders ''program-files'' = Some \<lparr>guid = FOLDERID_ProgramFiles, protected = False\<rparr>"
    by (simp add: knownFolders_def)
next
  have chain: "dir_location_chain shadowing_dirs ''program-files'' [''program-files''] ''program-data''"
    by (simp add: shadowing_dirs_def)
  have root: "fmlookup shadowing_dirs ''program-data'' = None"
    by (simp add: shadowing_dirs_def)
  have folder: "knownFolders ''program-data'' = Some \<lparr>guid = FOLDERID_ProgramData, protected = False\<rparr>"
    by (simp add: knownFolders_def)
  have os: "example_os (guid \<lparr>guid = FOLDERID_ProgramData, protected = False\<rparr>) 0
      = (Inr (''C:'' @ bsl @ ''ProgramData''), 1)"
    by (simp add: example_os_def)
  show "ResolveDirectory example_os shadowing_dirs ''program-files'' 0 =
     (Inr \<lparr>dref_Root = \<lparr>kf_ID = ''program-data'', kf_Path = ''C:'' @ bsl @ ''ProgramData'',
                         kf_Protected = False\<rparr>,
           dref_Lineage = [\<lparr>dr_Location = ''program-data'', dr_Path = ''Shadow''\<rparr>]\<rparr>, 1)"
    using ResolveDirectory_chain[where os = example_os and w = 0, OF chain root folder os]
    by (simp add: definitions_of_def shadowing_dirs_def)
next
  show "registryRoots ''software'' = Some \<lparr>key = PredefinedKeyLocalMachine, path = ''SOFTWARE''\<rparr>"
    by (simp add: registryRoots_def)
next
  have "ResolveKey_loop_within 1 shadowing_keys ''software''
          (''hklm'', {}, [\<lparr>rk_Location = ''hklm'', rk_Name = ''Shadow'', rk_Path = []\<rparr>])
        = Some (Inl (key_parent_not_defined_error ''software'' ''hklm''))"
    by (simp add: ResolveKey_iteration_def shadowing_keys_def ResolveRoot_def registryRoots_def)
  from key_loop_within_sound[OF this]
  show "ResolveKey shadowing_keys ''software'' = Inl (key_parent_not_defined_error ''software'' ''hklm'')"
    by (simp add: ResolveKey_def shadowing_keys_def)
qed

theorem resolve_looks_up_definition_first_witness:
  "fmlookup example_dirs ''program-files'' = None \<and>
   knownFolders ''program-files'' = Some \<lparr>guid = FOLDERID_ProgramFiles, protected = False\<rparr> \<and>
   example_os FOLDERID_ProgramFiles 0 = (Inr program_files_path, 1) \<and>
   ResolveDirectory example_os example_dirs ''program-files'' 0 =
     (Inr \<lparr>dref_Root = \<lparr>kf_ID = ''program-files'', kf_Path = program_files_path, kf_Protected = False\<rparr>,
           dref_Lineage = []\<rparr>, 1) \<and>
   fmlookup example_dirs ''nowhere'' = None \<and> knownFolders ''nowhere'' = None \<and>
   ResolveDirectory example_os example_dirs ''nowhere'' 0 = (Inl (dir_not_defined_error ''nowhere''), 0) \<and>
   fmlookup cyclic_keys ''software'' = None \<and>
   registryRoots ''software'' = Some \<lparr>key = PredefinedKeyLocalMachine, path = ''SOFTWARE''\<rparr> \<and>
   ResolveKey cyclic_keys ''software'' =
     Inr \<lparr>kref_Root = \<lparr>rr_ID = ''software'', rr_PredefinedKey = PredefinedKeyLocalMachine,
                        rr_Path = ''SOFTWARE''\<rparr>,
          kref_Lineage = []\<rparr>"
proof -
  have a: "fmlookup example_dirs ''program-files'' = None"
    by (simp add: example_dirs_def)
  have b: "knownFolders ''program-files'' = Some \<lparr>guid = FOLDERID_ProgramFiles, protected = False\<rparr>"
    by (simp add: knownFolders_def)
  have c: "example_os FOLDERID_ProgramFiles 0 = (Inr program_files_path, 1)"
    by (simp add: example_os_def)
  have c': "example_os (guid \<lparr>guid = FOLDERID_ProgramFiles, protected = False\<rparr>) 0
      = (Inr program_files_path, 1)"
    by (simp add: example_os_def)
  have d: "fmlookup example_dirs ''nowhere'' = None"
    by (simp add: example_dirs_def)
  have e: "knownFolders ''nowhere'' = None"
    by (simp add: knownFolders_def)
  have f: "fmlookup cyclic_keys ''software'' = None"
    by (simp add: cyclic_keys_def)
  have g: "registryRoots ''software'' = Some \<lparr>key = PredefinedKeyLocalMachine, path = ''SOFTWARE''\<rparr>"
    by (simp add: registryRoots_def)
  from resolve_looks_up_definition_first[of example_dirs "''program-files''"
      "\<lparr>guid = FOLDERID_ProgramFiles, protected = False\<rparr>" example_os 0 program_files_path 1
      _ _ _ cyclic_keys "''software''" "\<lparr>key = PredefinedKeyLocalMachine, path = ''SOFTWARE''\<rparr>"]
    a b c' f g
  have r1: "ResolveDirectory example_os example_dirs ''program-files'' 0 =
     (Inr \<lparr>dref_Root = \<lparr>kf_ID = ''program-files'', kf_Path = program_files_path, kf_Protected = False\<rparr>,
           dref_Lineage = []\<rparr>, 1)"
    and r3: "ResolveKey cyclic_keys ''software'' =
     Inr \<lparr>kref_Root = \<lparr>rr_ID = ''software'', rr_PredefinedKey = PredefinedKeyLocalMachine,
                        rr_Path = ''SOFTWARE''\<rparr>,
          kref_Lineage = []\<rparr>"
    by simp_all
  from resolve_looks_up_definition_first[of example_dirs "''nowhere''" _ example_os 0] d e
  have r2: "ResolveDirectory example_os example_dirs ''nowhere'' 0
      = (Inl (dir_not_defined_error ''nowhere''), 0)"
    by simp
  from a b c d e f g r1 r2 r3 show ?thesis by blast
qed




text \<open>
  Claim C8, as amended. Every error of \<^verbatim>\<open>ResolveDirectory\<close> names the requested ID in
  its message, or is the error of \<^verbatim>\<open>ResolveKnownFolder\<close> for a location met during the
  traversal whose lookup by the operating system failed, which names that location. Every
  error that a pass of the traversal returns names the location being looked at. Every
  error of \<^verbatim>\<open>ResolveKey\<close> names the requested key, and the errors of its traversal
  name the location being looked at as well. \<^verbatim>\<open>ResolveFile\<close> and \<^verbatim>\<open>ResolveValue\<close>
  name the file or value, and when the directory or key cannot be resolved their message is
  their own prefix followed by the message of that failure. \<^verbatim>\<open>ResolveKnownFolder\<close>
  names the folder when the operating system fails, and returns the bare error
  \<^verbatim>\<open>fs.ErrNotExist\<close> for an ID that is not in its table, as \<^verbatim>\<open>ResolveRoot\<close> does.
  Nothing is retried: a resolution leaves the world as it was or as one call of the
  operating system left it.
\<close>

theorem resolution_errors_name_resources:
  "(ResolveKnownFolder os ident w = (Inl e, w') \<longrightarrow>
      (knownFolders ident = None \<and> e = ErrNotExist) \<or>
      (knownFolders ident \<noteq> None \<and> names e ident)) \<and>
   (ResolveRoot k = Inl e \<longrightarrow> registryRoots k = None \<and> e = ErrNotExist) \<and>
   (ResolveDirectory os dirs ident w = (Inl e, w') \<longrightarrow>
      names e ident \<or>
      (\<exists>nxt folder err. knownFolders nxt = Some folder \<and> e = known_folder_error nxt err \<and>
         names e nxt)) \<and>
   (ResolveDirectory_iteration os dirs ident (nxt, seen, lineage) w = Return (Inl e, w') \<longrightarrow>
      names e nxt \<and>
      (names e ident \<or>
       (\<exists>folder err. knownFolders nxt = Some folder \<and> e = known_folder_error nxt err))) \<and>
   (ResolveKey keys k = Inl e \<longrightarrow> names e k) \<and>
   (ResolveKey_iteration keys k (nxt, seen, klineage) = Return (Inl e) \<longrightarrow>
      names e nxt \<and> names e k) \<and>
   (ResolveFile os res f w = (Inl e, w') \<longrightarrow>
      names e f \<and>
      (\<forall>data. fmlookup (Files res) f = Some data \<and> fr_Location data \<noteq> [] \<longrightarrow>
         (\<exists>e'. ResolveDirectory os (Directories res) (fr_Location data) w = (Inl e', w') \<and>
               Error e = ''failed to resolve the '' @ quoted f @ '' file: '' @ Error e'))) \<and>
   (ResolveValue reg v = Inl e \<longrightarrow>
      names e v \<and>
      (\<forall>data. fmlookup (Values reg) v = Some data \<and> rv_Key data \<noteq> [] \<longrightarrow>
         (\<exists>e'. ResolveKey (Keys reg) (rv_Key data) = Inl e' \<and>
               Error e = ''failed to resolve the '' @ quoted v @ '' registry value: '' @ Error e'))) \<and>
   (snd (ResolveDirectory os dirs ident w) = w \<or>
    (\<exists>g. snd (ResolveDirectory os dirs ident w) = snd (os g w))) \<and>
   (snd (ResolveFile os res f w) = w \<or>
    (\<exists>g. snd (ResolveFile os res f w) = snd (os g w)))"
proof (intro conjI impI)
  assume a: "ResolveKnownFolder os ident w = (Inl e, w')"
  from ResolveKnownFolder_error[OF a] names_known_folder_error[of ident]
  show "(knownFolders ident = None \<and> e = ErrNotExist) \<or>
      (knownFolders ident \<noteq> None \<and> names e ident)"
    by auto
next
  assume "ResolveRoot k = Inl e"
  then show "registryRoots k = None" by (simp add: ResolveRoot_error)
next
  assume "ResolveRoot k = Inl e"
  then show "e = ErrNotExist" by (simp add: ResolveRoot_error)
next
  assume "ResolveDirectory os dirs ident w = (Inl e, w')"
  then show "names e ident \<or>
      (\<exists>nxt folder err. knownFolders nxt = Some folder \<and> e = known_folder_error nxt err \<and>
         names e nxt)"
    by (rule ResolveDirectory_error)
next
  assume a: "ResolveDirectory_iteration os dirs ident (nxt, seen, lineage) w = Return (Inl e, w')"
  from names_dir_iteration_error[OF a] show "names e nxt" by simp
  from names_dir_iteration_error[OF a]
  show "names e ident \<or>
       (\<exists>folder err. knownFolders nxt = Some folder \<and> e = known_folder_error nxt err)"
    by simp
next
  assume "ResolveKey keys k = Inl e"
  then show "names e k" by (rule ResolveKey_error)
next
  assume a: "ResolveKey_iteration keys k (nxt, seen, klineage) = Return (Inl e)"
  from names_key_iteration_error[OF a] show "names e nxt" by simp
  from names_key_iteration_error[OF a] show "names e k" by simp
next
  assume a: "ResolveFile os res f w = (Inl e, w')"
  from ResolveFile_error[OF a] show "names e f" by simp
  from ResolveFile_error[OF a]
  show "\<forall>data. fmlookup (Files res) f = Some data \<and> fr_Location data \<noteq> [] \<longrightarrow>
         (\<exists>e'. ResolveDirectory os (Directories res) (fr_Location data) w = (Inl e', w') \<and>
               Error e = ''failed to resolve the '' @ quoted f @ '' file: '' @ Error e')"
    by simp
next
  assume a: "ResolveValue reg v = Inl e"
  from ResolveValue_error[OF a] show "names e v" by simp
  from ResolveValue_error[OF a]
  show "\<forall>data. fmlookup (Values reg) v = Some data \<and> rv_Key data \<noteq> [] \<longrightarrow>
         (\<exists>e'. ResolveKey (Keys reg) (rv_Key data) = Inl e' \<and>
               Error e = ''failed to resolve the '' @ quoted v @ '' registry value: '' @ Error e')"
    by simp
next
  show "snd (ResolveDirectory os dirs ident w) = w \<or>
    (\<exists>g. snd (ResolveDirectory os dirs ident w) = snd (os g w))"
    by (rule ResolveDirectory_world)
next
  show "snd (ResolveFile os res f w) = w \<or>
    (\<exists>g. snd (ResolveFile os res f w) = snd (os g w))"
    by (rule ResolveFile_world)
qed

theorem resolution_errors_name_resources_witness:
  "ResolveDirectory example_os cyclic_dirs ''dirX'' 0 = (Inl (dir_cycle_error ''dirX'' ''dirY''), 0) \<and>
   ResolveFile example_os cyclic_fs ''setup'' 0
     = (Inl (Wrapf (''failed to resolve the '' @ quoted ''setup'' @ '' file: '')
              (dir_cycle_error ''dirX'' ''dirY'')), 0) \<and>
   names (Wrapf (''failed to resolve the '' @ quoted ''setup'' @ '' file: '')
              (dir_cycle_error ''dirX'' ''dirY'')) ''setup'' \<and>
   ResolveKnownFolder example_os ''system'' 0
     = (Inl (known_folder_error ''system'' (External ''the known folder is not available'')), 1) \<and>
   names (known_folder_error ''system'' (External ''the known folder is not available'')) ''system'' \<and>
   ResolveKey cyclic_keys ''nowhere'' = Inl (key_not_defined_error ''nowhere'') \<and>
   names (key_not_defined_error ''nowhere'') ''nowhere'' \<and>
   ResolveValue cyclic_reg ''absent'' = Inl (value_not_defined_error ''absent'') \<and>
   names (value_not_defined_error ''absent'') ''absent''"
proof -
  let ?fe = "Wrapf (''failed to resolve the '' @ quoted ''setup'' @ '' file: '')
              (dir_cycle_error ''dirX'' ''dirY'')"
  let ?ke = "known_folder_error ''system'' (External ''the known folder is not available'')"
  have d: "ResolveDirectory example_os cyclic_dirs ''dirX'' 0
      = (Inl (dir_cycle_error ''dirX'' ''dirY''), 0)"
    by (rule ResolveDirectory_cyclic_dirs)
  have f: "ResolveFile example_os cyclic_fs ''setup'' 0 = (Inl ?fe, 0)"
    by (simp add: ResolveFile_def cyclic_fs_def d)
  have kf: "ResolveKnownFolder example_os ''system'' 0 = (Inl ?ke, 1)"
    by (simp add: ResolveKnownFolder_def knownFolders_def example_os_def known_folder_error_def)
  have k: "ResolveKey cyclic_keys ''nowhere'' = Inl (key_not_defined_error ''nowhere'')"
    by (simp add: ResolveKey_def cyclic_keys_def ResolveRoot_def registryRoots_def)
  have v: "ResolveValue cyclic_reg ''absent'' = Inl (value_not_defined_error ''absent'')"
    by (simp add: ResolveValue_def cyclic_reg_def)
  have kfn: "knownFolders ''system'' \<noteq> None"
    by (simp add: knownFolders_def)
  from resolution_errors_name_resources[where os = example_os and ident = "''system''" and w = 0
      and e = ?ke and w' = 1, THEN conjunct1, THEN mp, OF kf] kfn
  have n1: "names ?ke ''system''"
    by blast
  from resolution_errors_name_resources[where os = example_os and res = cyclic_fs and f = "''setup''"
      and w = 0 and e = ?fe and w' = 0, THEN conjunct2, THEN conjunct2, THEN conjunct2,
      THEN conjunct2, THEN conjunct2, THEN conjunct2, THEN conjunct1, THEN mp, OF f]
  have n2: "names ?fe ''setup''"
    by (rule conjunct1)
  from resolution_errors_name_resources[where keys = cyclic_keys and k = "''nowhere''"
      and e = "key_not_defined_error ''nowhere''", THEN conjunct2, THEN conjunct2, THEN conjunct2,
      THEN conjunct2, THEN conjunct1, THEN mp, OF k]
  have n3: "names (key_not_defined_error ''nowhere'') ''nowhere''" .
  from resolution_errors_name_resources[where reg = cyclic_reg and v = "''absent''"
      and e = "value_not_defined_error ''absent''", THEN conjunct2, THEN conjunct2, THEN conjunct2,
      THEN conjunct2, THEN conjunct2, THEN conjunct2, THEN conjunct2, THEN conjunct1, THEN mp, OF v]
  have n4: "names (value_not_defined_error ''absent'') ''absent''"
    by (rule conjunct1)
  show ?thesis
    by (intro conjI d f n2 kf n1 k n3 v n4)
qed

theorem resolution_errors_name_resources_counterexample:
  "ResolveKnownFolder example_os ''nowhere'' 0 = (Inl ErrNotExist, 0) \<and>
   ResolveRoot ''nowhere'' = Inl ErrNotExist \<and>
   Error ErrNotExist = ''file does not exist'' \<and>
   \<not> names ErrNotExist ''nowhere''"
proof (intro conjI)
  show "ResolveKnownFolder example_os ''nowhere'' 0 = (Inl ErrNotExist, 0)"
    by (simp add: ResolveKnownFolder_def knownFolders_def)
  show "ResolveRoot ''nowhere'' = Inl ErrNotExist"
    by (simp add: ResolveRoot_def registryRoots_def)
  show "Error ErrNotExist = ''file does not exist''"
    by simp
  show "\<not> names ErrNotExist ''nowhere''"
    by (simp add: names_def sublist_code(3))
qed

section \<open>Claims about the event registry and the event records\<close>

lemma Add_event_registered:
  "reg_ids r t \<noteq> None \<Longrightarrow>
     Add_event r \<lparr>reg_Type = t, reg_Unmarshaler = d\<rparr> = r\<lparr>reg_unmarshalers := (reg_unmarshalers r)(t \<mapsto> d)\<rparr>"
  by (cases "reg_ids r t") (simp_all add: Add_event_def)

lemma Add_event_ids:
  "reg_ids (Add_event r \<lparr>reg_Type = t, reg_Unmarshaler = d\<rparr>) t \<noteq> None"
  by (simp add: Add_event_def Let_def)

text \<open>
  Claim C4. Registering a type tag that already has an ID leaves \<^verbatim>\<open>EventID\<close> of every
  tag, \<^verbatim>\<open>Types()\<close> and the next ID as they were, and \<^verbatim>\<open>UnmarshalRecord\<close> gives the
  records with that tag to the new decoder. After a first call of \<^verbatim>\<open>Add\<close> for a tag the
  tag has an ID, so a second call with another decoder does exactly that, in any state of
  the registry.
\<close>

theorem add_again_keeps_id_and_swaps_decoder:
  "(EventID r t \<noteq> None \<longrightarrow>
      (\<forall>t'. EventID (Add r [\<lparr>reg_Type = t, reg_Unmarshaler = d\<rparr>]) t' = EventID r t') \<and>
      Types (Add r [\<lparr>reg_Type = t, reg_Unmarshaler = d\<rparr>]) = Types r \<and>
      reg_next (Add r [\<lparr>reg_Type = t, reg_Unmarshaler = d\<rparr>]) = reg_next r \<and>
      (\<forall>b. header b = Inr t \<longrightarrow>
         Registry_UnmarshalRecord header (Add r [\<lparr>reg_Type = t, reg_Unmarshaler = d\<rparr>]) b = d b)) \<and>
   EventID (Add r [\<lparr>reg_Type = t, reg_Unmarshaler = d1\<rparr>]) t \<noteq> None \<and>
   EventID (Add (Add r [\<lparr>reg_Type = t, reg_Unmarshaler = d1\<rparr>]) [\<lparr>reg_Type = t, reg_Unmarshaler = d2\<rparr>]) t
     = EventID (Add r [\<lparr>reg_Type = t, reg_Unmarshaler = d1\<rparr>]) t \<and>
   Types (Add (Add r [\<lparr>reg_Type = t, reg_Unmarshaler = d1\<rparr>]) [\<lparr>reg_Type = t, reg_Unmarshaler = d2\<rparr>])
     = Types (Add r [\<lparr>reg_Type = t, reg_Unmarshaler = d1\<rparr>]) \<and>
   (\<forall>b. header b = Inr t \<longrightarrow>
      Registry_UnmarshalRecord header
        (Add (Add r [\<lparr>reg_Type = t, reg_Unmarshaler = d1\<rparr>]) [\<lparr>reg_Type = t, reg_Unmarshaler = d2\<rparr>]) b
        = d2 b)"
proof -
  have again: "Add r' [\<lparr>reg_Type = t, reg_Unmarshaler = d'\<rparr>]
      = r'\<lparr>reg_unmarshalers := (reg_unmarshalers r')(t \<mapsto> d')\<rparr>"
    if "reg_ids r' t \<noteq> None" for r' :: "('a, 'b, 'c) Registry" and d'
    using that by (simp add: Add_def Add_event_registered)
  have first: "reg_ids (Add r [\<lparr>reg_Type = t, reg_Unmarshaler = d1\<rparr>]) t \<noteq> None"
    by (simp add: Add_def Add_event_ids)
  show ?thesis
    using first
    by (simp add: again EventID_def Types_def Registry_UnmarshalRecord_def)
qed

theorem add_again_keeps_id_and_swaps_decoder_witness:
  "EventID example_registry ''a:b'' = Some 1000 \<and>
   EventID (Add example_registry [\<lparr>reg_Type = ''a:b'', reg_Unmarshaler = example_decoder\<rparr>]) ''a:b''
     = Some 1000 \<and>
   Types (Add example_registry [\<lparr>reg_Type = ''a:b'', reg_Unmarshaler = example_decoder\<rparr>])
     = [''a:b''] \<and>
   example_header ''a:b'' = Inr ''a:b'' \<and>
   Registry_UnmarshalRecord example_header
     (Add example_registry [\<lparr>reg_Type = ''a:b'', reg_Unmarshaler = example_decoder\<rparr>]) ''a:b''
     = Inr 3"
proof -
  have id1: "EventID example_registry ''a:b'' = Some 1000"
    by (simp add: example_registry_def Add_def Add_event_def NewRegistry_def EventID_def)
  have ty1: "Types example_registry = [''a:b'']"
    by (simp add: example_registry_def Add_def Add_event_def NewRegistry_def Types_def)
  have reg: "EventID example_registry ''a:b'' \<noteq> None"
    using id1 by simp
  have hd: "example_header ''a:b'' = Inr ''a:b''"
    by (simp add: example_header_def)
  note inst = add_again_keeps_id_and_swaps_decoder[of example_registry "''a:b''" example_decoder
      example_header, THEN conjunct1, THEN mp, OF reg]
  from inst[THEN conjunct1, THEN spec, of "''a:b''"] id1
  have id2: "EventID (Add example_registry [\<lparr>reg_Type = ''a:b'', reg_Unmarshaler = example_decoder\<rparr>])
      ''a:b'' = Some 1000"
    by simp
  from inst[THEN conjunct2, THEN conjunct1] ty1
  have ty2: "Types (Add example_registry [\<lparr>reg_Type = ''a:b'', reg_Unmarshaler = example_decoder\<rparr>])
      = [''a:b'']"
    by simp
  from inst[THEN conjunct2, THEN conjunct2, THEN conjunct2, THEN spec, THEN mp, OF hd]
  have un: "Registry_UnmarshalRecord example_header
      (Add example_registry [\<lparr>reg_Type = ''a:b'', reg_Unmarshaler = example_decoder\<rparr>]) ''a:b''
      = Inr 3"
    by (simp add: example_decoder_def)
  show ?thesis
    by (intro conjI id1 id2 ty2 hd un)
qed






text \<open>
  Claim C10. The record that \<^verbatim>\<open>NewRecord\<close> returns carries the reading of the clock at
  the call as its time, whatever the argument \<open>at\<close> is: two calls that differ only in
  \<open>at\<close> return the same record.
\<close>

theorem new_record_ignores_at:
  "RecordOf_Time (NewRecord clock w at pc' event) = clock w \<and>
   NewRecord clock w at pc' event = NewRecord clock w at' pc' event"
  by (simp add: NewRecord_def RecordOf_Time_def)

section \<open>Claims about the engine state\<close>

lemma Admit_race_active:
  "flowID \<in> activeFlows s \<Longrightarrow>
     Admit_race flowID cs s = (map (\<lambda>c. (c, False)) cs, s)"
  by (induction cs) (simp_all add: Admit_def)

lemma Admit_race_first:
  "flowID \<notin> activeFlows s \<Longrightarrow>
     Admit_race flowID (c # cs) s
       = ((c, True) # map (\<lambda>c. (c, False)) cs, s\<lparr>activeFlows := insert flowID (activeFlows s)\<rparr>)"
  by (simp add: Admit_def Admit_race_active)

text \<open>
  Claim C9. With the admission of the spec, which tests and inserts in one atomic step, let
  any number of callers race to admit a flow that is not active: in whichever order their
  calls take effect, the first one succeeds and every other one fails, so exactly one
  succeeds, and a call made once the flow is admitted fails AlreadyRunning. For two
  callers, both orders are spelled out. \<^verbatim>\<open>Release\<close> is idempotent, and after
  \<^verbatim>\<open>Release\<close> a later \<^verbatim>\<open>Admit\<close> of the flow succeeds.
\<close>

theorem admit_is_exclusive_release_idempotent:
  "(flowID \<notin> activeFlows s \<longrightarrow>
      fst (Admit_race flowID (c # cs) s) = (c, True) # map (\<lambda>c. (c, False)) cs \<and>
      length (filter snd (fst (Admit_race flowID (c # cs) s))) = 1 \<and>
      fst (Admit_race flowID [a, b] s) = [(a, True), (b, False)] \<and>
      fst (Admit_race flowID [b, a] s) = [(b, True), (a, False)] \<and>
      (\<exists>s1. Admit flowID s = Inr s1 \<and> Admit flowID s1 = Inl (AlreadyRunning flowID))) \<and>
   (flowID \<in> activeFlows s \<longrightarrow> Admit flowID s = Inl (AlreadyRunning flowID)) \<and>
   Release flowID (Release flowID s) = Release flowID s \<and>
   flowID \<notin> activeFlows (Release flowID s) \<and>
   Admit flowID (Release flowID s)
     = Inr ((Release flowID s)\<lparr>activeFlows := insert flowID (activeFlows (Release flowID s))\<rparr>)"
proof (intro conjI impI)
  assume n: "flowID \<notin> activeFlows s"
  from Admit_race_first[OF n, of c cs]
  show first: "fst (Admit_race flowID (c # cs) s) = (c, True) # map (\<lambda>c. (c, False)) cs"
    by (simp only: fst_conv)
  have "filter snd (map (\<lambda>c. (c, False)) cs) = []"
    by (induction cs) simp_all
  with first show "length (filter snd (fst (Admit_race flowID (c # cs) s))) = 1"
    by (simp del: Admit_race.simps)
  from Admit_race_first[OF n, of a "[b]"]
  show "fst (Admit_race flowID [a, b] s) = [(a, True), (b, False)]"
    by (simp only: fst_conv list.map)
  from Admit_race_first[OF n, of b "[a]"]
  show "fst (Admit_race flowID [b, a] s) = [(b, True), (a, False)]"
    by (simp only: fst_conv list.map)
  from n show "\<exists>s1. Admit flowID s = Inr s1 \<and> Admit flowID s1 = Inl (AlreadyRunning flowID)"
    by (simp add: Admit_def)
next
  assume "flowID \<in> activeFlows s"
  then show "Admit flowID s = Inl (AlreadyRunning flowID)"
    by (simp add: Admit_def)
next
  show "Release flowID (Release flowID s) = Release flowID s"
    by (simp add: Release_def)
next
  show "flowID \<notin> activeFlows (Release flowID s)"
    by (simp add: Release_def)
next
  show "Admit flowID (Release flowID s)
     = Inr ((Release flowID s)\<lparr>activeFlows := insert flowID (activeFlows (Release flowID s))\<rparr>)"
    by (simp add: Admit_def Release_def)
qed

theorem admit_is_exclusive_release_idempotent_witness:
  "''install'' \<notin> activeFlows idle_state \<and>
   fst (Admit_race ''install'' [1::nat, 2] idle_state) = [(1, True), (2, False)] \<and>
   fst (Admit_race ''install'' [2::nat, 1] idle_state) = [(2, True), (1, False)] \<and>
   length (filter snd (fst (Admit_race ''install'' [1::nat, 2] idle_state))) = 1"
proof -
  have n: "''install'' \<notin> activeFlows idle_state"
    by (simp add: idle_state_def)
  note inst = admit_is_exclusive_release_idempotent[where flowID = "''install''" and s = idle_state
      and a = "1::nat" and b = 2 and c = "1::nat" and cs = "[2]", THEN conjunct1, THEN mp, OF n]
  from inst[THEN conjunct2, THEN conjunct2, THEN conjunct1]
  have r1: "fst (Admit_race ''install'' [1::nat, 2] idle_state) = [(1, True), (2, False)]" .
  from inst[THEN conjunct2, THEN conjunct2, THEN conjunct2, THEN conjunct1]
  have r2: "fst (Admit_race ''install'' [2::nat, 1] idle_state) = [(2, True), (1, False)]" .
  from inst[THEN conjunct2, THEN conjunct1]
  have r3: "length (filter snd (fst (Admit_race ''install'' [1::nat, 2] idle_state))) = 1" .
  show ?thesis
    by (intro conjI n r1 r2 r3)
qed

end
